theory Spec2Isabelle
  imports Main
begin

section \<open>Paths (pathlib.PurePosixPath, os.path)\<close>

text \<open>
  A \<^verbatim>\<open>Path\<close> object is its root flag and its tuple of components. pathlib drops empty
  and \<^verbatim>\<open>.\<close> components when it parses a string and keeps \<^verbatim>\<open>..\<close>.
\<close>

record path =
  absolute :: bool
  parts :: "string list"

fun split_sep :: "string \<Rightarrow> string list" where
  "split_sep [] = [[]]"
| "split_sep (c # cs) =
     (if c = CHR ''/'' then [] # split_sep cs
      else (case split_sep cs of [] \<Rightarrow> [[c]] | x # xs \<Rightarrow> (c # x) # xs))"

definition parse_path :: "string \<Rightarrow> path" where
  "parse_path s =
     \<lparr>absolute = (case s of [] \<Rightarrow> False | c # _ \<Rightarrow> c = CHR ''/''),
      parts = filter (\<lambda>c. c \<noteq> [] \<and> c \<noteq> ''.'') (split_sep s)\<rparr>"

text \<open>\<^verbatim>\<open>p / s\<close>: an absolute right operand replaces the left one.\<close>

definition joinpath :: "path \<Rightarrow> string \<Rightarrow> path" where
  "joinpath p s =
     (let q = parse_path s
      in if absolute q then q else p\<lparr>parts := parts p @ parts q\<rparr>)"

text \<open>\<^verbatim>\<open>Path.name\<close>: the last component, the empty string when there is none.\<close>

definition name :: "path \<Rightarrow> string" where
  "name p = (if parts p = [] then [] else last (parts p))"

text \<open>\<^verbatim>\<open>Path.parent\<close>: a path without components is its own parent.\<close>

definition parent :: "path \<Rightarrow> path" where
  "parent p = p\<lparr>parts := butlast (parts p)\<rparr>"

text \<open>
  \<^verbatim>\<open>os.path.normpath\<close> on the components of an absolute path: purely lexical, \<^verbatim>\<open>..\<close> at
  the root stays at the root.
\<close>

fun normpath :: "string list \<Rightarrow> string list \<Rightarrow> string list" where
  "normpath acc [] = acc"
| "normpath acc (c # cs) =
     (if c = [] \<or> c = ''.'' then normpath acc cs
      else if c = ''..'' then normpath (butlast acc) cs
      else normpath (acc @ [c]) cs)"

text \<open>The working directory is given by its components (\<^verbatim>\<open>os.getcwd()\<close> is absolute).\<close>

definition abspath :: "string list \<Rightarrow> path \<Rightarrow> string list" where
  "abspath wd p = normpath [] ((if absolute p then [] else wd) @ parts p)"

fun commonprefix :: "string list \<Rightarrow> string list \<Rightarrow> string list" where
  "commonprefix (x # xs) (y # ys) = (if x = y then x # commonprefix xs ys else [])"
| "commonprefix _ _ = []"

text \<open>
  \<^verbatim>\<open>os.path.relpath(path, start)\<close>. The result is the text of a relative path; it is kept as
  its components, \<^verbatim>\<open>.\<close> when there are none.
\<close>

definition relpath :: "string list \<Rightarrow> path \<Rightarrow> path \<Rightarrow> path" where
  "relpath wd p start =
     (let start_list = abspath wd start;
          path_list = abspath wd p;
          i = length (commonprefix start_list path_list);
          rel_list = replicate (length start_list - i) ''..'' @ drop i path_list
      in \<lparr>absolute = False, parts = (if rel_list = [] then [''.''] else rel_list)\<rparr>)"

section \<open>The file system\<close>

text \<open>
  The file system maps a location (the components of a canonical absolute path, the root
  being \<open>[]\<close>) to the node stored there. A symbolic link stores its target text, kept as a
  path. The model has one user with every permission, files hold decoded text, and
  \<^verbatim>\<open>flush\<close>, \<^verbatim>\<open>fsync\<close> and \<^verbatim>\<open>sync\<close> have no effect on what later calls observe: neither
  \<^verbatim>\<open>PermissionError\<close> nor \<^verbatim>\<open>UnicodeDecodeError\<close> arises.
\<close>

type_synonym loc = "string list"

datatype node = Dir | File string | Symlink path

type_synonym fs = "loc \<Rightarrow> node option"

datatype error =
    FileExistsError
  | FileNotFoundError
  | IsADirectoryError
  | NotADirectoryError
  | TooManyLinks
  | RuntimeError string

datatype lookup = Found loc node | Missing loc | Fail error

text \<open>
  Path resolution of the kernel, from the directory \<open>cur\<close>. Every component but the last
  must lead to a directory, through symbolic links if need be; the last one may be absent
  (\<open>Missing\<close>, with the location it would get) and is followed only when \<open>follow\<close> is set.
  \<open>fuel\<close> bounds the nesting of symbolic links (\<^verbatim>\<open>ELOOP\<close> when it runs out).
\<close>

fun namei :: "fs \<Rightarrow> nat \<Rightarrow> bool \<Rightarrow> loc \<Rightarrow> string list \<Rightarrow> lookup" where
  "namei fs fuel follow cur [] = Found cur Dir"
| "namei fs fuel follow cur (c # rest) =
     (if c = [] \<or> c = ''.'' then namei fs fuel follow cur rest
      else if c = ''..'' then namei fs fuel follow (butlast cur) rest
      else (case fs (cur @ [c]) of
          None \<Rightarrow> if rest = [] then Missing (cur @ [c]) else Fail FileNotFoundError
        | Some Dir \<Rightarrow> namei fs fuel follow (cur @ [c]) rest
        | Some (File d) \<Rightarrow>
            if rest = [] then Found (cur @ [c]) (File d) else Fail NotADirectoryError
        | Some (Symlink t) \<Rightarrow>
            if rest = [] \<and> \<not> follow then Found (cur @ [c]) (Symlink t)
            else if fuel = 0 then Fail TooManyLinks
            else (case namei fs (fuel - 1) True (if absolute t then [] else cur) (parts t) of
                Found l Dir \<Rightarrow> namei fs fuel follow l rest
              | Found l n \<Rightarrow> if rest = [] then Found l n else Fail NotADirectoryError
              | Missing l \<Rightarrow> if rest = [] then Missing l else Fail FileNotFoundError
              | Fail e \<Rightarrow> Fail e)))"

definition max_links :: nat where
  "max_links = 40"

definition start_dir :: "loc \<Rightarrow> path \<Rightarrow> loc" where
  "start_dir wd p = (if absolute p then [] else wd)"

definition stat :: "fs \<Rightarrow> loc \<Rightarrow> path \<Rightarrow> lookup" where
  "stat fs wd p = namei fs max_links True (start_dir wd p) (parts p)"

definition lstat :: "fs \<Rightarrow> loc \<Rightarrow> path \<Rightarrow> lookup" where
  "lstat fs wd p = namei fs max_links False (start_dir wd p) (parts p)"

text \<open>
  \<^verbatim>\<open>Path.exists()\<close>, \<^verbatim>\<open>Path.is_dir()\<close> and \<^verbatim>\<open>Path.is_symlink()\<close> turn every lookup error
  of this model into \<^verbatim>\<open>False\<close>. \<^verbatim>\<open>exists\<close> follows a final symbolic link, so it is
  \<^verbatim>\<open>False\<close> on a dangling one.
\<close>

definition fs_exists :: "fs \<Rightarrow> loc \<Rightarrow> path \<Rightarrow> bool" where
  "fs_exists fs wd p = (case stat fs wd p of Found _ _ \<Rightarrow> True | _ \<Rightarrow> False)"

definition is_dir :: "fs \<Rightarrow> loc \<Rightarrow> path \<Rightarrow> bool" where
  "is_dir fs wd p = (case stat fs wd p of Found _ Dir \<Rightarrow> True | _ \<Rightarrow> False)"

definition is_symlink :: "fs \<Rightarrow> loc \<Rightarrow> path \<Rightarrow> bool" where
  "is_symlink fs wd p = (case lstat fs wd p of Found _ (Symlink _) \<Rightarrow> True | _ \<Rightarrow> False)"


text \<open>\<^verbatim>\<open>os.mkdir\<close>: a final symbolic link is not followed, any entry there is \<^verbatim>\<open>EEXIST\<close>.\<close>

definition os_mkdir :: "fs \<Rightarrow> loc \<Rightarrow> path \<Rightarrow> error + fs" where
  "os_mkdir fs wd p =
     (case lstat fs wd p of
        Found _ _ \<Rightarrow> Inl FileExistsError
      | Missing l \<Rightarrow> Inr (fs(l \<mapsto> Dir))
      | Fail e \<Rightarrow> Inl e)"

text \<open>\<^verbatim>\<open>Path.mkdir(parents=False, exist_ok=True)\<close>.\<close>

definition mkdir_exist_ok :: "fs \<Rightarrow> loc \<Rightarrow> path \<Rightarrow> error + fs" where
  "mkdir_exist_ok fs wd p =
     (case os_mkdir fs wd p of
        Inr fs' \<Rightarrow> Inr fs'
      | Inl e \<Rightarrow>
          if e = FileNotFoundError then Inl e
          else if is_dir fs wd p then Inr fs else Inl e)"

text \<open>
  \<^verbatim>\<open>Path.mkdir(parents=True, exist_ok=True)\<close>, which recurses on the lexical parent. When
  it raises, the parents that it has created remain: the error comes with the files as
  they are then.
\<close>

function mkdir_p :: "fs \<Rightarrow> loc \<Rightarrow> path \<Rightarrow> (error \<times> fs) + fs" where
  "mkdir_p fs wd p =
     (case os_mkdir fs wd p of
        Inr fs' \<Rightarrow> Inr fs'
      | Inl e \<Rightarrow>
          if e = FileNotFoundError then
            (if parent p = p then Inl (e, fs)
             else (case mkdir_p fs wd (parent p) of
                 Inl x \<Rightarrow> Inl x
               | Inr fs1 \<Rightarrow>
                   (case mkdir_exist_ok fs1 wd p of
                      Inl e' \<Rightarrow> Inl (e', fs1)
                    | Inr fs2 \<Rightarrow> Inr fs2)))
          else if is_dir fs wd p then Inr fs else Inl (e, fs))"
  by pat_completeness auto
termination
proof (relation "measure (\<lambda>(fs, wd, p). length (parts p))")
  show "wf (measure (\<lambda>(fs, wd, p). length (parts p)))"
    by simp
next
  fix fs :: fs and wd :: loc and p :: path
  assume "parent p \<noteq> p"
  then have "parts p \<noteq> []"
    by (auto simp: parent_def)
  then show "((fs, wd, parent p), (fs, wd, p)) \<in> measure (\<lambda>(fs, wd, p). length (parts p))"
    by (simp add: parent_def)
qed

declare mkdir_p.simps [simp del]

text \<open>\<^verbatim>\<open>Path.unlink()\<close>: removes a file or a symbolic link, refuses a directory.\<close>

definition unlink :: "path \<Rightarrow> fs \<Rightarrow> loc \<Rightarrow> error + fs" where
  "unlink p fs wd =
     (case lstat fs wd p of
        Found l Dir \<Rightarrow> Inl IsADirectoryError
      | Found l _ \<Rightarrow> Inr (fs(l := None))
      | Missing _ \<Rightarrow> Inl FileNotFoundError
      | Fail e \<Rightarrow> Inl e)"

text \<open>\<^verbatim>\<open>Path.symlink_to(target)\<close>: any entry at the path, a dangling link too, is \<^verbatim>\<open>EEXIST\<close>.\<close>

definition symlink_to :: "path \<Rightarrow> path \<Rightarrow> fs \<Rightarrow> loc \<Rightarrow> error + fs" where
  "symlink_to p target fs wd =
     (case lstat fs wd p of
        Found _ _ \<Rightarrow> Inl FileExistsError
      | Missing l \<Rightarrow> Inr (fs(l \<mapsto> Symlink target))
      | Fail e \<Rightarrow> Inl e)"

text \<open>
  \<^verbatim>\<open>open(p, "w")\<close> followed by one \<^verbatim>\<open>write\<close>: the file is created or truncated, through a
  final symbolic link.
\<close>

definition write_text :: "path \<Rightarrow> string \<Rightarrow> fs \<Rightarrow> loc \<Rightarrow> error + fs" where
  "write_text p content fs wd =
     (case stat fs wd p of
        Found l Dir \<Rightarrow> Inl IsADirectoryError
      | Found l (File _) \<Rightarrow> Inr (fs(l \<mapsto> File content))
      | Found l (Symlink _) \<Rightarrow> Inl TooManyLinks
      | Missing l \<Rightarrow> Inr (fs(l \<mapsto> File content))
      | Fail e \<Rightarrow> Inl e)"

text \<open>\<^verbatim>\<open>open(p, "r").read()\<close>.\<close>

definition read_text :: "fs \<Rightarrow> loc \<Rightarrow> path \<Rightarrow> error + string" where
  "read_text fs wd p =
     (case stat fs wd p of
        Found l (File d) \<Rightarrow> Inr d
      | Found l Dir \<Rightarrow> Inl IsADirectoryError
      | Found l (Symlink _) \<Rightarrow> Inl TooManyLinks
      | Missing _ \<Rightarrow> Inl FileNotFoundError
      | Fail e \<Rightarrow> Inl e)"

text \<open>
  \<^verbatim>\<open>os.path.realpath\<close> (not strict): a component that is absent or not a link is appended
  as it is, a link is replaced by the real path of its target. The flag is \<^verbatim>\<open>False\<close> when
  the links nest beyond \<open>fuel\<close>, which stands for a loop.
\<close>

fun joinrealpath :: "fs \<Rightarrow> nat \<Rightarrow> loc \<Rightarrow> string list \<Rightarrow> loc \<times> bool" where
  "joinrealpath fs fuel cur [] = (cur, True)"
| "joinrealpath fs fuel cur (c # rest) =
     (if c = [] \<or> c = ''.'' then joinrealpath fs fuel cur rest
      else if c = ''..'' then joinrealpath fs fuel (butlast cur) rest
      else (case fs (cur @ [c]) of
          Some (Symlink t) \<Rightarrow>
            if fuel = 0 then (cur @ [c] @ rest, False)
            else (case joinrealpath fs (fuel - 1) (if absolute t then [] else cur) (parts t) of
                (p, ok) \<Rightarrow> if ok then joinrealpath fs fuel p rest else (p @ rest, False))
        | _ \<Rightarrow> joinrealpath fs fuel (cur @ [c]) rest))"

text \<open>\<^verbatim>\<open>Path.resolve()\<close>, which raises \<^verbatim>\<open>RuntimeError\<close> on a loop of links.\<close>

definition resolve :: "fs \<Rightarrow> loc \<Rightarrow> path \<Rightarrow> error + path" where
  "resolve fs wd p =
     (case joinrealpath fs max_links (start_dir wd p) (parts p) of
        (l, ok) \<Rightarrow>
          if ok then Inr \<lparr>absolute = True, parts = l\<rparr>
          else Inl (RuntimeError ''Symlink loop''))"

section \<open>The process: files, working directory, log, clock\<close>

datatype level = Debug | Info | Warning | Error

text \<open>
  \<open>logged\<close> holds the records sent to the module logger (level and message format),
  \<open>slept\<close> the milliseconds spent in \<^verbatim>\<open>time.sleep\<close>, \<open>probes\<close> the number of calls of
  \<^verbatim>\<open>Path.exists()\<close> so far.
\<close>

record world =
  files :: fs
  cwd :: loc
  logged :: "(level \<times> string) list"
  slept :: nat
  probes :: nat

type_synonym 'a result = "(error \<times> world) + 'a"

definition logmsg :: "level \<Rightarrow> string \<Rightarrow> world \<Rightarrow> world" where
  "logmsg lv m w = w\<lparr>logged := logged w @ [(lv, m)]\<rparr>"

definition sleep :: "nat \<Rightarrow> world \<Rightarrow> world" where
  "sleep ms w = w\<lparr>slept := slept w + ms\<rparr>"

text \<open>A single file-system call: an exception leaves the files as they were.\<close>

definition fs_op :: "(fs \<Rightarrow> loc \<Rightarrow> error + fs) \<Rightarrow> world \<Rightarrow> world result" where
  "fs_op f w =
     (case f (files w) (cwd w) of
        Inl e \<Rightarrow> Inl (e, w)
      | Inr fs' \<Rightarrow> Inr (w\<lparr>files := fs'\<rparr>))"

text \<open>
  \<^verbatim>\<open>p.mkdir(parents=True, exist_ok=True)\<close> in the process: an exception leaves the files
  with the parents created before it.
\<close>

definition mkdir_parents :: "path \<Rightarrow> world \<Rightarrow> world result" where
  "mkdir_parents p w =
     (case mkdir_p (files w) (cwd w) p of
        Inl (e, fs') \<Rightarrow> Inl (e, w\<lparr>files := fs'\<rparr>)
      | Inr fs' \<Rightarrow> Inr (w\<lparr>files := fs'\<rparr>))"

text \<open>Sequencing: an exception skips the rest of the block.\<close>

definition and_then :: "world result \<Rightarrow> (world \<Rightarrow> world result) \<Rightarrow> world result" where
  "and_then r f = (case r of Inl x \<Rightarrow> Inl x | Inr w \<Rightarrow> f w)"

text \<open>\<^verbatim>\<open>except Exception as e: logger.error(...); raise\<close>.\<close>

definition on_error :: "string \<Rightarrow> world result \<Rightarrow> world result" where
  "on_error m r = (case r of Inl (e, w) \<Rightarrow> Inl (e, logmsg Error m w) | Inr w \<Rightarrow> Inr w)"

text \<open>
  The existence check is a parameter, so that a backend whose answers lag behind the
  files can be put in its place. It sees the whole process state, the number of earlier
  checks included. \<open>posix_exists\<close> is the check of the file system above.
\<close>

type_synonym exists_check = "world \<Rightarrow> path \<Rightarrow> bool"

definition posix_exists :: exists_check where
  "posix_exists w p = fs_exists (files w) (cwd w) p"

definition path_exists :: "exists_check \<Rightarrow> path \<Rightarrow> world \<Rightarrow> bool \<times> world" where
  "path_exists ex p w = (ex w p, w\<lparr>probes := Suc (probes w)\<rparr>)"

section \<open>StorageManager\<close>

text \<open>
  \<open>home\<close> is \<^verbatim>\<open>Path.home()\<close>, \<open>None\<close> when it cannot be determined; \<open>module_dir\<close> is
  \<^verbatim>\<open>Path(__file__).parent\<close>.
\<close>

record env =
  home :: "path option"
  module_dir :: path

record storage_manager =
  project_root :: path
  project_name :: string
  mcp_docs_dir :: path
  project_docs_dir :: path
  neurolora_link :: path

text \<open>
  \<^verbatim>\<open>StorageManager.__init__\<close>. A \<^verbatim>\<open>Path\<close> is always true, so \<^verbatim>\<open>project_root or Path.cwd()\<close>
  is the working directory only for \<^verbatim>\<open>None\<close>; a string is true when it is not empty.
\<close>

definition init ::
  "env \<Rightarrow> path option \<Rightarrow> string option \<Rightarrow> world \<Rightarrow> (storage_manager \<times> world) result" where
  "init e root subproject_id w =
     (let project_root = (case root of None \<Rightarrow> \<lparr>absolute = True, parts = cwd w\<rparr> | Some p \<Rightarrow> p);
          w1 = logmsg Debug ''Project root: %s'' (logmsg Info ''Initializing storage manager'' w);
          base_name = name project_root;
          project_name =
            (case subproject_id of
               None \<Rightarrow> base_name
             | Some s \<Rightarrow> if s \<noteq> [] then base_name @ ''-'' @ s else base_name)
      in case home e of
           None \<Rightarrow> Inl (RuntimeError ''Could not determine home directory.'', w1)
         | Some h \<Rightarrow>
             (let mcp_docs_dir = joinpath h ''.mcp-docs'';
                  project_docs_dir = joinpath mcp_docs_dir project_name;
                  neurolora_link = joinpath project_root ''.neurolora''
              in case mkdir_parents mcp_docs_dir w1 of
                   Inl x \<Rightarrow> Inl x
                 | Inr w2 \<Rightarrow>
                     Inr (\<lparr>project_root = project_root,
                           project_name = project_name,
                           mcp_docs_dir = mcp_docs_dir,
                           project_docs_dir = project_docs_dir,
                           neurolora_link = neurolora_link\<rparr>,
                          logmsg Info ''Storage manager initialized''
                            (logmsg Debug ''Neurolora link: %s''
                              (logmsg Debug ''Project docs dir: %s''
                                (logmsg Debug ''Project name: %s'' w2))))))"

definition max_retries :: nat where
  "max_retries = 10"

definition retry_delay :: nat where
  "retry_delay = 100"

text \<open>
  The \<^verbatim>\<open>for ... else\<close> loop of \<^verbatim>\<open>_create_directories\<close>: \<open>n\<close> attempts are left; the
  \<^verbatim>\<open>else\<close> branch raises when none is.
\<close>

fun poll_directory :: "exists_check \<Rightarrow> storage_manager \<Rightarrow> nat \<Rightarrow> world \<Rightarrow> world result" where
  "poll_directory ex self 0 w =
     Inl (RuntimeError ''Directory not visible after 10 retries'', w)"
| "poll_directory ex self (Suc n) w =
     (case path_exists ex (project_docs_dir self) w of
        (b, w1) \<Rightarrow> if b then Inr w1 else poll_directory ex self n (sleep retry_delay w1))"

text \<open>\<^verbatim>\<open>StorageManager._create_directories\<close>.\<close>

definition create_directories :: "exists_check \<Rightarrow> storage_manager \<Rightarrow> world \<Rightarrow> world result" where
  "create_directories ex self w =
     on_error ''Error creating directories: %s''
       (and_then (mkdir_parents (project_docs_dir self) w) (\<lambda>w1.
        and_then
          (fs_op (write_text (joinpath (project_docs_dir self) ''.initialized'') ''initialized'')
             (logmsg Info ''Created/verified project directory: %s'' w1)) (\<lambda>w2.
        case path_exists ex (project_docs_dir self) w2 of
          (b, w3) \<Rightarrow>
            if \<not> b then Inl (RuntimeError ''Failed to create directory'', w3)
            else poll_directory ex self max_retries w3)))"

text \<open>\<^verbatim>\<open>StorageManager._create_or_update_symlink\<close>: the check after the update.\<close>

definition verify_symlink :: "exists_check \<Rightarrow> path \<Rightarrow> path \<Rightarrow> world \<Rightarrow> world result" where
  "verify_symlink ex link_path target_path w =
     (case path_exists ex link_path w of
        (b, w1) \<Rightarrow>
          if \<not> b then Inl (RuntimeError ''Symlink was not created'', w1)
          else if \<not> is_symlink (files w1) (cwd w1) link_path
            then Inl (RuntimeError ''Path exists but is not a symlink'', w1)
          else (case resolve (files w1) (cwd w1) link_path of
              Inl e \<Rightarrow> Inl (e, w1)
            | Inr resolved \<Rightarrow>
                if resolved \<noteq> target_path
                then Inl (RuntimeError ''Symlink points to wrong target'', w1)
                else Inr (logmsg Debug ''Symlink verified successfully'' w1)))"

text \<open>
  \<^verbatim>\<open>StorageManager._create_or_update_symlink\<close>: the \<^verbatim>\<open>if link_path.exists()\<close> statement
  that creates or replaces the link.
\<close>

definition update_symlink ::
  "exists_check \<Rightarrow> path \<Rightarrow> path \<Rightarrow> string \<Rightarrow> path \<Rightarrow> world \<Rightarrow> world result" where
  "update_symlink ex link_path target_path link_name relative_target w =
     (case path_exists ex link_path w of
        (b, w2) \<Rightarrow>
          if b then
            (let w3 = logmsg Debug ''Link path exists: %s'' w2
             in if \<not> is_symlink (files w3) (cwd w3) link_path then
                  and_then
                    (fs_op (unlink link_path) (logmsg Warning ''Removing non-symlink %s'' w3))
                    (fs_op (symlink_to link_path relative_target))
                else (case resolve (files w3) (cwd w3) link_path of
                    Inl e \<Rightarrow> Inl (e, w3)
                  | Inr resolved \<Rightarrow>
                      if resolved \<noteq> target_path then
                        and_then
                          (fs_op (unlink link_path)
                             (logmsg Warning ''Updating incorrect %s symlink'' w3))
                          (fs_op (symlink_to link_path relative_target))
                      else Inr w3))
          else
            and_then
              (fs_op (symlink_to link_path relative_target)
                 (logmsg Debug ''Creating new symlink'' w2))
              (\<lambda>w3. Inr (logmsg Debug ''Created %s symlink'' w3)))"

text \<open>\<^verbatim>\<open>StorageManager._create_or_update_symlink\<close>.\<close>

definition create_or_update_symlink ::
  "exists_check \<Rightarrow> path \<Rightarrow> path \<Rightarrow> string \<Rightarrow> world \<Rightarrow> world result" where
  "create_or_update_symlink ex link_path target_path link_name w =
     on_error ''Error creating symlink: %s''
       (and_then (mkdir_parents target_path
                    (logmsg Debug ''Creating symlink: %s -> %s'' w)) (\<lambda>w1.
        and_then
          (update_symlink ex link_path target_path link_name
             (relpath (cwd w1) target_path (parent link_path)) w1)
          (verify_symlink ex link_path target_path)))"

text \<open>The \<^verbatim>\<open>for ... else\<close> loop of \<^verbatim>\<open>_create_symlinks\<close>.\<close>

fun poll_symlink :: "exists_check \<Rightarrow> storage_manager \<Rightarrow> nat \<Rightarrow> world \<Rightarrow> world result" where
  "poll_symlink ex self 0 w =
     Inl (RuntimeError ''Symlink not visible after 10 retries'', w)"
| "poll_symlink ex self (Suc n) w =
     (case path_exists ex (neurolora_link self) w of
        (b, w1) \<Rightarrow>
          if b \<and> is_symlink (files w1) (cwd w1) (neurolora_link self) then Inr w1
          else poll_symlink ex self n (sleep retry_delay w1))"

text \<open>\<^verbatim>\<open>StorageManager._create_symlinks\<close>.\<close>

definition create_symlinks :: "exists_check \<Rightarrow> storage_manager \<Rightarrow> world \<Rightarrow> world result" where
  "create_symlinks ex self w =
     on_error ''Error creating symlinks: %s''
       (and_then
          (create_or_update_symlink ex (neurolora_link self) (project_docs_dir self)
             ''.neurolora'' w) (\<lambda>w1.
        and_then (poll_symlink ex self max_retries w1) (\<lambda>w2.
        Inr (logmsg Info ''Symlink created and verified: %s'' w2))))"

text \<open>
  \<^verbatim>\<open>StorageManager._create_template_file\<close>. Every error of this model is an \<^verbatim>\<open>OSError\<close>,
  which the inner and the outer handler both log before raising it again.
\<close>

definition io_error :: "error \<times> world \<Rightarrow> world result" where
  "io_error x =
     (case x of (e, w) \<Rightarrow>
        Inl (e, logmsg Error ''File system error with files: %s''
                  (logmsg Error ''I/O error with files: %s'' w)))"

definition create_template_file ::
  "exists_check \<Rightarrow> env \<Rightarrow> storage_manager \<Rightarrow> string \<Rightarrow> string \<Rightarrow> path option \<Rightarrow> world
     \<Rightarrow> world result" where
  "create_template_file ex e self template_name output_name output_dir w =
     (let output_file =
            joinpath (case output_dir of None \<Rightarrow> project_docs_dir self | Some d \<Rightarrow> d) output_name
      in case path_exists ex output_file w of
        (present, w1) \<Rightarrow>
          if \<not> present then
            (let template_file = joinpath (joinpath (module_dir e) ''templates'') template_name
             in case path_exists ex template_file w1 of
               (found, w2) \<Rightarrow>
                 if found then
                   (case read_text (files w2) (cwd w2) template_file of
                      Inl err \<Rightarrow> io_error (err, w2)
                    | Inr content \<Rightarrow>
                        (case fs_op (write_text output_file content) w2 of
                           Inl x \<Rightarrow> io_error x
                         | Inr w3 \<Rightarrow> Inr (logmsg Debug ''Created %s from template'' w3)))
                 else Inr (logmsg Warning ''Template file not found: %s'' w2))
          else Inr w1)"

text \<open>\<^verbatim>\<open>StorageManager._create_ignore_file\<close>.\<close>

definition create_ignore_file ::
  "exists_check \<Rightarrow> env \<Rightarrow> storage_manager \<Rightarrow> world \<Rightarrow> world result" where
  "create_ignore_file ex e self w =
     create_template_file ex e self ''ignore.template'' ''.neuroloraignore''
       (Some (project_root self)) w"

text \<open>\<^verbatim>\<open>StorageManager._create_task_files\<close>.\<close>

definition create_task_files ::
  "exists_check \<Rightarrow> env \<Rightarrow> storage_manager \<Rightarrow> world \<Rightarrow> world result" where
  "create_task_files ex e self w =
     and_then (create_template_file ex e self ''todo.template.md'' ''TODO.md'' None w)
       (create_template_file ex e self ''done.template.md'' ''DONE.md'' None)"

text \<open>\<^verbatim>\<open>StorageManager.setup\<close>.\<close>

definition "setup" :: "exists_check \<Rightarrow> env \<Rightarrow> storage_manager \<Rightarrow> world \<Rightarrow> world result" where
  "setup ex e self w =
     and_then (create_directories ex self w) (\<lambda>w1.
     and_then (create_symlinks ex self w1) (\<lambda>w2.
     and_then (create_ignore_file ex e self w2) (\<lambda>w3.
     and_then (create_task_files ex e self w3) (\<lambda>w4.
     Inr (logmsg Info ''Storage setup complete. Project directory: %s'' w4)))))"

text \<open>\<^verbatim>\<open>StorageManager.get_output_path\<close>.\<close>

definition get_output_path :: "storage_manager \<Rightarrow> string \<Rightarrow> path" where
  "get_output_path self filename = joinpath (project_docs_dir self) filename"

section \<open>Relations between file systems\<close>

text \<open>
  A name that is a real component, neither empty nor \<^verbatim>\<open>.\<close> nor \<^verbatim>\<open>..\<close>.
\<close>

definition regular :: "string \<Rightarrow> bool" where
  "regular c \<longleftrightarrow> c \<noteq> [] \<and> c \<noteq> ''.'' \<and> c \<noteq> ''..''"

text \<open>
  \<open>extends fs fs'\<close>: every node of \<open>fs\<close> is in \<open>fs'\<close> with its kind (a directory, a file
  whatever its content, a link with its target); \<open>fs'\<close> may hold more.
\<close>

fun same_kind :: "node \<Rightarrow> node \<Rightarrow> bool" where
  "same_kind Dir n = (n = Dir)"
| "same_kind (File d) n = (case n of File _ \<Rightarrow> True | _ \<Rightarrow> False)"
| "same_kind (Symlink t) n = (n = Symlink t)"

definition extends :: "fs \<Rightarrow> fs \<Rightarrow> bool" where
  "extends fs fs' \<longleftrightarrow> (\<forall>l n. fs l = Some n \<longrightarrow> (\<exists>n'. fs' l = Some n' \<and> same_kind n n'))"

text \<open>\<open>fs'\<close> is \<open>fs\<close> with new directories, or with new files, and nothing else changed.\<close>

definition adds_dirs :: "fs \<Rightarrow> fs \<Rightarrow> bool" where
  "adds_dirs fs fs' \<longleftrightarrow> (\<forall>l. fs' l = fs l \<or> (fs l = None \<and> fs' l = Some Dir))"

definition adds_files :: "fs \<Rightarrow> fs \<Rightarrow> bool" where
  "adds_files fs fs' \<longleftrightarrow> (\<forall>l. fs' l = fs l \<or> (fs l = None \<and> (\<exists>d. fs' l = Some (File d))))"

text \<open>
  What a lookup with result \<open>r\<close> becomes in an extension \<open>fs'\<close>: what was found is found
  at the same place; what was missing is still missing, or found where it was missing;
  a failure stays one when only files were added.
\<close>

definition grows_to :: "bool \<Rightarrow> bool \<Rightarrow> fs \<Rightarrow> lookup \<Rightarrow> lookup \<Rightarrow> bool" where
  "grows_to follow only_files fs' r r' \<longleftrightarrow>
     (case r of
        Found l n \<Rightarrow> (\<exists>n'. r' = Found l n' \<and> same_kind n n')
      | Missing l \<Rightarrow>
          (case fs' l of
             None \<Rightarrow> r' = Missing l
           | Some Dir \<Rightarrow> r' = Found l Dir
           | Some (File d) \<Rightarrow> r' = Found l (File d)
           | Some (Symlink t) \<Rightarrow> \<not> follow \<longrightarrow> r' = Found l (Symlink t))
      | Fail e \<Rightarrow> only_files \<longrightarrow> (\<exists>e'. r' = Fail e'))"

text \<open>The state that \<^verbatim>\<open>_create_or_update_symlink\<close> checks for before it returns.\<close>

definition link_ok :: "fs \<Rightarrow> loc \<Rightarrow> path \<Rightarrow> path \<Rightarrow> bool" where
  "link_ok fs wd link_path target_path \<longleftrightarrow>
     fs_exists fs wd link_path \<and> is_symlink fs wd link_path \<and>
     resolve fs wd link_path = Inr target_path"

section \<open>A concrete installation\<close>

text \<open>
  Home \<^verbatim>\<open>/tmp/home\<close>, project root \<^verbatim>\<open>/tmp/app\<close>, the package with its three templates
  under \<^verbatim>\<open>/pkg\<close>; nothing has been set up yet.
\<close>

definition example_files :: fs where
  "example_files =
     [[''tmp''] \<mapsto> Dir, [''tmp'', ''app''] \<mapsto> Dir, [''tmp'', ''home''] \<mapsto> Dir,
      [''pkg''] \<mapsto> Dir, [''pkg'', ''templates''] \<mapsto> Dir,
      [''pkg'', ''templates'', ''ignore.template''] \<mapsto> File ''*.pyc'',
      [''pkg'', ''templates'', ''todo.template.md''] \<mapsto> File ''# TODO'',
      [''pkg'', ''templates'', ''done.template.md''] \<mapsto> File ''# DONE'']"

definition example_world :: world where
  "example_world =
     \<lparr>files = example_files, cwd = [''tmp''], logged = [], slept = 0, probes = 0\<rparr>"

definition example_env :: env where
  "example_env =
     \<lparr>home = Some \<lparr>absolute = True, parts = [''tmp'', ''home'']\<rparr>,
      module_dir = \<lparr>absolute = True, parts = [''pkg'']\<rparr>\<rparr>"

definition app_root :: path where
  "app_root = \<lparr>absolute = True, parts = [''tmp'', ''app'']\<rparr>"

definition example_init :: "string option \<Rightarrow> (storage_manager \<times> world) result" where
  "example_init sub = init example_env (Some app_root) sub example_world"

text \<open>The manager and the process state of a construction that succeeded.\<close>

definition manager_of :: "(storage_manager \<times> world) result \<Rightarrow> storage_manager" where
  "manager_of r = fst (projr r)"

definition world_of :: "(storage_manager \<times> world) result \<Rightarrow> world" where
  "world_of r = snd (projr r)"

text \<open>The manager that the construction returns for \<^verbatim>\<open>/tmp/app\<close> without sub-identity.\<close>

definition example_manager :: storage_manager where
  "example_manager =
     \<lparr>project_root = app_root,
      project_name = ''app'',
      mcp_docs_dir = \<lparr>absolute = True, parts = [''tmp'', ''home'', ''.mcp-docs'']\<rparr>,
      project_docs_dir = \<lparr>absolute = True, parts = [''tmp'', ''home'', ''.mcp-docs'', ''app'']\<rparr>,
      neurolora_link = \<lparr>absolute = True, parts = [''tmp'', ''app'', ''.neurolora'']\<rparr>\<rparr>"

text \<open>The state once the cache root exists.\<close>

definition ready_world :: world where
  "ready_world = example_world\<lparr>files := example_files([''tmp'', ''home'', ''.mcp-docs''] \<mapsto> Dir)\<rparr>"

text \<open>The same with something in the way at \<^verbatim>\<open>/tmp/app/.neurolora\<close>.\<close>

definition blocked_world :: "node \<Rightarrow> world" where
  "blocked_world n =
     ready_world\<lparr>files := (files ready_world)([''tmp'', ''app'', ''.neurolora''] \<mapsto> n)\<rparr>"

text \<open>The state after a set-up in which the user has written \<^verbatim>\<open>TODO.md\<close> anew.\<close>

definition noted_world :: "string \<Rightarrow> world" where
  "noted_world notes =
     ready_world\<lparr>files := (files ready_world)
       ([''tmp'', ''home'', ''.mcp-docs'', ''app''] \<mapsto> Dir,
        [''tmp'', ''home'', ''.mcp-docs'', ''app'', ''TODO.md''] \<mapsto> File notes)\<rparr>"

text \<open>An installation that lacks its templates.\<close>

definition bare_world :: world where
  "bare_world =
     example_world\<lparr>files :=
       [[''tmp''] \<mapsto> Dir, [''tmp'', ''app''] \<mapsto> Dir, [''tmp'', ''home''] \<mapsto> Dir,
        [''tmp'', ''home'', ''.mcp-docs''] \<mapsto> Dir, [''pkg''] \<mapsto> Dir]\<rparr>"

text \<open>The template that \<^verbatim>\<open>_create_template_file\<close> looks up.\<close>

definition template_path :: "env \<Rightarrow> string \<Rightarrow> path" where
  "template_path e template_name = joinpath (joinpath (module_dir e) ''templates'') template_name"

text \<open>The state in which a call ended, and the exception it raised.\<close>

definition final_world :: "world result \<Rightarrow> world" where
  "final_world r = (case r of Inl (e, w) \<Rightarrow> w | Inr w \<Rightarrow> w)"

definition raised :: "world result \<Rightarrow> error option" where
  "raised r = (case r of Inl (e, w) \<Rightarrow> Some e | Inr w \<Rightarrow> None)"



section \<open>What the first set-up leaves for the second\<close>

text \<open>Nothing at a path, not even a link that dangles.\<close>

definition no_entry :: "fs \<Rightarrow> loc \<Rightarrow> path \<Rightarrow> bool" where
  "no_entry fs wd p = (case lstat fs wd p of Missing l \<Rightarrow> True | _ \<Rightarrow> False)"

text \<open>
  The three files that \<^verbatim>\<open>setup\<close> seeds, each with the template it is copied from:
  \<^verbatim>\<open>_create_ignore_file\<close> writes under the project root, \<^verbatim>\<open>_create_task_files\<close> under the
  documents directory.
\<close>

definition seed_pairs :: "env \<Rightarrow> storage_manager \<Rightarrow> (path \<times> path) list" where
  "seed_pairs e self =
     [(template_path e ''ignore.template'', joinpath (project_root self) ''.neuroloraignore''),
      (template_path e ''todo.template.md'', joinpath (project_docs_dir self) ''TODO.md''),
      (template_path e ''done.template.md'', joinpath (project_docs_dir self) ''DONE.md'')]"

text \<open>
  From the state \<open>w\<close> before a set-up to the state \<open>w1\<close> after it, no template has come
  into existence whose file is still to be seeded: a template that exists in \<open>w1\<close>
  existed in \<open>w\<close>, or its file exists in \<open>w1\<close>.
\<close>

definition no_template_made :: "env \<Rightarrow> storage_manager \<Rightarrow> world \<Rightarrow> world \<Rightarrow> bool" where
  "no_template_made e self w w1 =
     list_all (\<lambda>(t, out).
        fs_exists (files w1) (cwd w1) t \<longrightarrow>
          fs_exists (files w) (cwd w) t \<or> fs_exists (files w1) (cwd w1) out)
       (seed_pairs e self)"

text \<open>
  Two installations with a fresh project root. In the first the template of \<^verbatim>\<open>TODO.md\<close>
  is a link to the place where \<^verbatim>\<open>DONE.md\<close> will be seeded. In the second the documents
  directory exists and its marker is a link to the place where \<^verbatim>\<open>.neurolora\<close> will be
  created.
\<close>

definition linked_template_world :: world where
  "linked_template_world =
     ready_world\<lparr>files := (files ready_world)
       ([''pkg'', ''templates'', ''todo.template.md''] \<mapsto>
          Symlink \<lparr>absolute = True,
                   parts = [''tmp'', ''home'', ''.mcp-docs'', ''app'', ''DONE.md'']\<rparr>)\<rparr>"

definition linked_marker_world :: world where
  "linked_marker_world =
     ready_world\<lparr>files := (files ready_world)
       ([''tmp'', ''home'', ''.mcp-docs'', ''app''] \<mapsto> Dir,
        [''tmp'', ''home'', ''.mcp-docs'', ''app'', ''.initialized''] \<mapsto>
          Symlink \<lparr>absolute = True, parts = [''tmp'', ''app'', ''.neurolora'']\<rparr>)\<rparr>"

section \<open>Identity resolver\<close>

lemma init_project_name:
  assumes "init e (Some root) sub w = Inr (self, w')"
  shows "project_name self =
     (case sub of None \<Rightarrow> name root
      | Some s \<Rightarrow> if s \<noteq> [] then name root @ ''-'' @ s else name root)"
  using assms by (auto simp: init_def Let_def split: option.splits sum.splits)

lemma init_project_docs_dir:
  assumes "init e root sub w = Inr (self, w')"
  shows "\<exists>h. home e = Some h \<and> mcp_docs_dir self = joinpath h ''.mcp-docs'' \<and>
     project_docs_dir self = joinpath (mcp_docs_dir self) (project_name self)"
  using assms by (auto simp: init_def Let_def split: option.splits sum.splits)

lemma joinpath_mcp_docs: "joinpath h ''.mcp-docs'' = h\<lparr>parts := parts h @ [''.mcp-docs'']\<rparr>"
  by (simp add: joinpath_def parse_path_def)

lemma init_projr:
  "\<not> isl (init e root sub w) \<Longrightarrow>
   init e root sub w = Inr (manager_of (init e root sub w), world_of (init e root sub w))"
  by (cases "init e root sub w") (auto simp: manager_of_def world_of_def)

text \<open>
  C6, as the code has it. For a project root \<open>root\<close> the namespace name is \<open>name root\<close> when
  no sub-identity is given and \<open>name root @ ''-'' @ s\<close> for a sub-identity \<open>s\<close> that is not
  empty; it depends on nothing else. The name without sub-identity differs from every name
  with one, two sub-identities that are not empty give the same name only when they are
  equal, and a root named \<^verbatim>\<open>app\<close> with sub-identity \<^verbatim>\<open>backend\<close> gets \<^verbatim>\<open>app-backend\<close> and a
  documents directory different from the one without sub-identity.
\<close>

theorem namespace_derivation:
  assumes "init e (Some root) None w = Inr (a, wa)"
    and "init e (Some root) (Some s) w = Inr (b, wb)" and "s \<noteq> []"
    and "init e (Some root) (Some t) w = Inr (c, wc)" and "t \<noteq> []"
  shows "project_name a = name root \<and>
         project_name b = name root @ ''-'' @ s \<and>
         project_name a \<noteq> project_name b \<and>
         (project_name b = project_name c \<longrightarrow> s = t) \<and>
         (name root = ''app'' \<and> s = ''backend'' \<longrightarrow>
            project_name b = ''app-backend'' \<and> project_docs_dir a \<noteq> project_docs_dir b)"
proof -
  have na: "project_name a = name root"
    using init_project_name [OF assms(1)] by simp
  have nb: "project_name b = name root @ ''-'' @ s"
    using init_project_name [OF assms(2)] assms(3) by simp
  have nc: "project_name c = name root @ ''-'' @ t"
    using init_project_name [OF assms(4)] assms(5) by simp
  obtain h where da: "project_docs_dir a = joinpath (joinpath h ''.mcp-docs'') (project_name a)"
    and ha: "home e = Some h"
    using init_project_docs_dir [OF assms(1)] by auto
  have db: "project_docs_dir b = joinpath (joinpath h ''.mcp-docs'') (project_name b)"
    using init_project_docs_dir [OF assms(2)] ha by auto
  have app: "project_docs_dir a \<noteq> project_docs_dir b"
    if "name root = ''app''" and "s = ''backend''"
  proof -
    have "parts (project_docs_dir a) = parts h @ [''.mcp-docs'', ''app'']"
      using that by (simp add: da na joinpath_mcp_docs) (simp add: joinpath_def parse_path_def)
    moreover have "parts (project_docs_dir b) = parts h @ [''.mcp-docs'', ''app-backend'']"
      using that by (simp add: db nb joinpath_mcp_docs) (simp add: joinpath_def parse_path_def)
    ultimately show ?thesis by auto
  qed
  show ?thesis
    using na nb nc app by auto
qed

theorem namespace_derivation_witness:
  "\<not> isl (example_init None) \<and> \<not> isl (example_init (Some ''backend'')) \<and>
   project_name (manager_of (example_init None)) = ''app'' \<and>
   project_name (manager_of (example_init (Some ''backend''))) = ''app-backend'' \<and>
   project_name (manager_of (example_init None))
     \<noteq> project_name (manager_of (example_init (Some ''backend''))) \<and>
   project_docs_dir (manager_of (example_init None)) \<noteq>
     project_docs_dir (manager_of (example_init (Some ''backend'')))"
proof -
  let ?a = "example_init None"
  let ?b = "example_init (Some ''backend'')"
  have ok: "\<not> isl ?a" "\<not> isl ?b"
    by code_simp+
  have ha: "init example_env (Some app_root) None example_world = Inr (manager_of ?a, world_of ?a)"
    using ok(1) unfolding example_init_def by (rule init_projr)
  have hb: "init example_env (Some app_root) (Some ''backend'') example_world
      = Inr (manager_of ?b, world_of ?b)"
    using ok(2) unfolding example_init_def by (rule init_projr)
  have nm: "name app_root = ''app''"
    by (simp add: name_def app_root_def)
  have "project_name (manager_of ?a) = name app_root \<and>
        project_name (manager_of ?b) = name app_root @ ''-'' @ ''backend'' \<and>
        project_name (manager_of ?a) \<noteq> project_name (manager_of ?b) \<and>
        (project_name (manager_of ?b) = project_name (manager_of ?b) \<longrightarrow> ''backend'' = ''backend'') \<and>
        (name app_root = ''app'' \<and> ''backend'' = ''backend'' \<longrightarrow>
           project_name (manager_of ?b) = ''app-backend'' \<and>
           project_docs_dir (manager_of ?a) \<noteq> project_docs_dir (manager_of ?b))"
    by (rule namespace_derivation [OF ha hb _ hb]) simp_all
  then show ?thesis
    using ok nm by simp
qed

text \<open>
  C6 as it is written gives the name \<open>name root @ ''-'' @ s\<close> to every sub-identity \<open>s\<close>.
  The empty one gets \<open>name root\<close>.
\<close>

theorem namespace_derivation_counterexample:
  "\<not> isl (example_init (Some [])) \<and>
   project_name (manager_of (example_init (Some []))) \<noteq> name app_root @ ''-'' @ []"
  by code_simp



lemma namei_Found_any_follow:
  "namei fs fuel True cur ps = Found l n \<Longrightarrow> \<exists>l' n'. namei fs fuel follow cur ps = Found l' n'"
proof (induction fs fuel follow cur ps arbitrary: l n rule: namei.induct)
  case (1 fs fuel follow cur)
  then show ?case by simp
next
  case (2 fs fuel follow cur c rest)
  then show ?case
    by (auto split: if_splits option.splits node.splits lookup.splits)
qed

lemma is_dir_lstat_Found:
  "is_dir fs wd p \<Longrightarrow> \<exists>l n. lstat fs wd p = Found l n"
  unfolding is_dir_def stat_def lstat_def
  using namei_Found_any_follow [of fs max_links "start_dir wd p" "parts p" _ _ False]
  by (auto split: lookup.splits node.splits)

lemma mkdir_p_is_dir: "is_dir fs wd p \<Longrightarrow> mkdir_p fs wd p = Inr fs"
  using is_dir_lstat_Found [of fs wd p]
  by (subst mkdir_p.simps) (auto simp: os_mkdir_def)

section \<open>Directory initializer\<close>

lemma poll_directory_exhausted:
  assumes "\<forall>w'. k \<le> probes w' \<longrightarrow> \<not> ex w' (project_docs_dir self)" and "k \<le> probes w"
  shows "\<exists>w'. poll_directory ex self n w =
           Inl (RuntimeError ''Directory not visible after 10 retries'', w')
     \<and> probes w' = probes w + n \<and> slept w' = slept w + n * retry_delay
     \<and> files w' = files w \<and> logged w' = logged w \<and> cwd w' = cwd w"
  using assms
proof (induction n arbitrary: w)
  case 0
  then show ?case by simp
next
  case (Suc n)
  let ?w1 = "sleep retry_delay (w\<lparr>probes := Suc (probes w)\<rparr>)"
  have "\<not> ex w (project_docs_dir self)"
    using Suc.prems by simp
  then have step: "poll_directory ex self (Suc n) w = poll_directory ex self n ?w1"
    by (simp add: path_exists_def)
  have "k \<le> probes ?w1"
    using Suc.prems by (simp add: sleep_def)
  from Suc.IH [OF Suc.prems(1) this] step show ?case
    by (auto simp: sleep_def)
qed

text \<open>
  C3, as the code has it. Let the directory and the marker be written without error.
  With an existence check that is false whatever it is asked, \<^verbatim>\<open>_create_directories\<close>
  raises at the check that precedes the loop: one check, no polling attempt, no sleep.
  The loop runs dry, with 10 polling attempts and 10 sleeps of 100 ms before the error,
  when the check before the loop is true and every later one is false.
\<close>

theorem create_directories_retry:
  assumes "mkdir_p (files w) (cwd w) (project_docs_dir self) = Inr f1"
    and "write_text (joinpath (project_docs_dir self) ''.initialized'') ''initialized'' f1 (cwd w)
           = Inr f2"
  shows "((\<forall>w' p. \<not> ex w' p) \<longrightarrow>
            (\<exists>w'. create_directories ex self w =
                 Inl (RuntimeError ''Failed to create directory'', w')
               \<and> probes w' = probes w + 1 \<and> slept w' = slept w \<and> files w' = f2)) \<and>
         ((\<forall>w'. ex w' (project_docs_dir self) = (probes w' = probes w)) \<longrightarrow>
            (\<exists>w'. create_directories ex self w =
                 Inl (RuntimeError ''Directory not visible after 10 retries'', w')
               \<and> probes w' = probes w + 1 + 10 \<and> slept w' = slept w + 10 * 100
               \<and> files w' = f2))"
proof (intro conjI impI)
  let ?w2 = "(logmsg Info ''Created/verified project directory: %s'' (w\<lparr>files := f1\<rparr>))
               \<lparr>files := f2\<rparr>"
  have body: "create_directories ex self w =
      on_error ''Error creating directories: %s''
        (case path_exists ex (project_docs_dir self) ?w2 of
           (b, w3) \<Rightarrow> if \<not> b then Inl (RuntimeError ''Failed to create directory'', w3)
                      else poll_directory ex self max_retries w3)"
    using assms by (simp add: create_directories_def mkdir_parents_def fs_op_def and_then_def logmsg_def)
  {
    assume "\<forall>w' p. \<not> ex w' p"
    then show "\<exists>w'. create_directories ex self w =
                 Inl (RuntimeError ''Failed to create directory'', w')
               \<and> probes w' = probes w + 1 \<and> slept w' = slept w \<and> files w' = f2"
      by (simp add: body path_exists_def on_error_def logmsg_def)
  }
  {
    assume h: "\<forall>w'. ex w' (project_docs_dir self) = (probes w' = probes w)"
    let ?w3 = "?w2\<lparr>probes := Suc (probes ?w2)\<rparr>"
    have p2: "probes ?w2 = probes w"
      by (simp add: logmsg_def)
    have "\<forall>w'. Suc (probes w) \<le> probes w' \<longrightarrow> \<not> ex w' (project_docs_dir self)"
      using h by simp
    moreover have "Suc (probes w) \<le> probes ?w3"
      by (simp add: logmsg_def)
    ultimately obtain w' where
      "poll_directory ex self max_retries ?w3 =
         Inl (RuntimeError ''Directory not visible after 10 retries'', w')"
      "probes w' = probes ?w3 + max_retries" "slept w' = slept ?w3 + max_retries * retry_delay"
      "files w' = files ?w3"
      using poll_directory_exhausted [of "Suc (probes w)" ex self ?w3 max_retries] by blast
    moreover have "ex ?w2 (project_docs_dir self)"
      using h p2 by simp
    ultimately show "\<exists>w'. create_directories ex self w =
                 Inl (RuntimeError ''Directory not visible after 10 retries'', w')
               \<and> probes w' = probes w + 1 + 10 \<and> slept w' = slept w + 10 * 100
               \<and> files w' = f2"
      by (simp add: body path_exists_def on_error_def logmsg_def max_retries_def retry_delay_def)
  }
qed

theorem create_directories_retry_witness:
  "raised (create_directories (\<lambda>w p. False) example_manager ready_world)
     = Some (RuntimeError ''Failed to create directory'') \<and>
   slept (final_world (create_directories (\<lambda>w p. False) example_manager ready_world)) = 0 \<and>
   raised (create_directories (\<lambda>w p. probes w = 0) example_manager ready_world)
     = Some (RuntimeError ''Directory not visible after 10 retries'') \<and>
   probes (final_world (create_directories (\<lambda>w p. probes w = 0) example_manager ready_world))
     = 11 \<and>
   slept (final_world (create_directories (\<lambda>w p. probes w = 0) example_manager ready_world))
     = 1000"
proof -
  let ?docs = "project_docs_dir example_manager"
  let ?m = "mkdir_p (files ready_world) (cwd ready_world) ?docs"
  let ?t = "write_text (joinpath ?docs ''.initialized'') ''initialized'' (projr ?m)
              (cwd ready_world)"
  have "\<not> isl ?m" and "\<not> isl ?t"
    by code_simp+
  then have m: "?m = Inr (projr ?m)" and t: "?t = Inr (projr ?t)"
    by simp_all
  have p0: "probes ready_world = 0" and s0: "slept ready_world = 0"
    by (simp_all add: ready_world_def example_world_def)
  have never: "\<forall>w' p. \<not> (\<lambda>w p. False) w' p"
    by simp
  have once: "\<forall>w'. (\<lambda>w p. probes w = 0) w' ?docs = (probes w' = probes ready_world)"
    using p0 by simp
  from create_directories_retry [OF m t, of "\<lambda>w p. False"] never
  have a: "raised (create_directories (\<lambda>w p. False) example_manager ready_world)
        = Some (RuntimeError ''Failed to create directory'')
      \<and> slept (final_world (create_directories (\<lambda>w p. False) example_manager ready_world))
        = 0"
    using s0 by (auto simp: raised_def final_world_def)
  from create_directories_retry [OF m t, of "\<lambda>w p. probes w = 0"] once
  have b: "raised (create_directories (\<lambda>w p. probes w = 0) example_manager ready_world)
        = Some (RuntimeError ''Directory not visible after 10 retries'')
      \<and> probes (final_world
          (create_directories (\<lambda>w p. probes w = 0) example_manager ready_world)) = 11
      \<and> slept (final_world
          (create_directories (\<lambda>w p. probes w = 0) example_manager ready_world)) = 1000"
    using p0 s0 by (auto simp: raised_def final_world_def)
  from a b show ?thesis
    by simp
qed

text \<open>
  C3 as it is written has the error after 10 polling attempts. With the check that is
  always false the error is the one of the check before the loop, raised after a single
  check and without any sleep.
\<close>

theorem create_directories_retry_counterexample:
  "raised (create_directories (\<lambda>w p. False) example_manager ready_world)
     = Some (RuntimeError ''Failed to create directory'') \<and>
   probes (final_world (create_directories (\<lambda>w p. False) example_manager ready_world)) = 1 \<and>
   slept (final_world (create_directories (\<lambda>w p. False) example_manager ready_world)) = 0 \<and>
   slept (final_world (create_directories (\<lambda>w p. False) example_manager ready_world))
     \<noteq> max_retries * retry_delay"
  by code_simp

section \<open>Template seeder\<close>

text \<open>
  C5. When the existence check finds the destination, \<^verbatim>\<open>_create_template_file\<close> returns
  without an exception and without a log record; the files, and so the content of the
  destination, are what they were. Nothing but the count of existence checks changes.
\<close>

theorem seed_existing_is_noop:
  assumes "ex w (joinpath (case output_dir of None \<Rightarrow> project_docs_dir self | Some d \<Rightarrow> d)
                   output_name)"
  shows "create_template_file ex e self template_name output_name output_dir w
           = Inr (w\<lparr>probes := Suc (probes w)\<rparr>) \<and>
         files (final_world
           (create_template_file ex e self template_name output_name output_dir w)) = files w"
  using assms by (simp add: create_template_file_def path_exists_def Let_def final_world_def)

theorem seed_existing_is_noop_witness:
  "posix_exists (noted_world ''my notes'') (joinpath (project_docs_dir example_manager) ''TODO.md'') \<and>
   raised (create_template_file posix_exists example_env example_manager
             ''todo.template.md'' ''TODO.md'' None (noted_world ''my notes'')) = None \<and>
   files (final_world (create_template_file posix_exists example_env example_manager
             ''todo.template.md'' ''TODO.md'' None (noted_world ''my notes'')))
     [''tmp'', ''home'', ''.mcp-docs'', ''app'', ''TODO.md''] = Some (File ''my notes'')"
proof -
  have h: "posix_exists (noted_world ''my notes'')
      (joinpath (case None of None \<Rightarrow> project_docs_dir example_manager | Some d \<Rightarrow> d) ''TODO.md'')"
    by code_simp
  have f: "files (noted_world ''my notes'') [''tmp'', ''home'', ''.mcp-docs'', ''app'', ''TODO.md'']
      = Some (File ''my notes'')"
    by (simp add: noted_world_def)
  from seed_existing_is_noop [where ex = posix_exists and w = "noted_world ''my notes''"
      and output_dir = None and self = example_manager and output_name = "''TODO.md''"
      and e = example_env and template_name = "''todo.template.md''"] h f
  show ?thesis
    by (simp add: raised_def final_world_def)
qed

lemma seed_no_template:
  assumes "\<not> fs_exists (files w) (cwd w) (template_path e template_name)"
  shows "\<exists>w'. create_template_file posix_exists e self template_name output_name output_dir w
           = Inr w' \<and> files w' = files w \<and> cwd w' = cwd w"
  using assms
  by (simp add: create_template_file_def path_exists_def Let_def posix_exists_def logmsg_def
      template_path_def)

text \<open>
  C7. With the file system's own existence check: when neither the destination nor the
  template exists, \<^verbatim>\<open>_create_template_file\<close> returns without an exception, the files
  are unchanged (no destination is created) and the log gains one warning and nothing
  else. And when \<^verbatim>\<open>_create_directories\<close> and \<^verbatim>\<open>_create_symlinks\<close> have succeeded and none of
  the three templates exists, \<^verbatim>\<open>setup\<close> succeeds and leaves the files as they were then.
\<close>

theorem seed_without_template:
  "(\<not> fs_exists (files w) (cwd w)
        (joinpath (case output_dir of None \<Rightarrow> project_docs_dir self | Some d \<Rightarrow> d) output_name) \<and>
    \<not> fs_exists (files w) (cwd w) (template_path e template_name) \<longrightarrow>
      create_template_file posix_exists e self template_name output_name output_dir w
        = Inr (logmsg Warning ''Template file not found: %s'' (w\<lparr>probes := probes w + 2\<rparr>)) \<and>
      files (final_world
        (create_template_file posix_exists e self template_name output_name output_dir w))
        = files w \<and>
      logged (final_world
        (create_template_file posix_exists e self template_name output_name output_dir w))
        = logged w @ [(Warning, ''Template file not found: %s'')]) \<and>
   (create_directories posix_exists self w = Inr w1 \<and>
    create_symlinks posix_exists self w1 = Inr w2 \<and>
    (\<forall>t \<in> {''ignore.template'', ''todo.template.md'', ''done.template.md''}.
       \<not> fs_exists (files w2) (cwd w2) (template_path e t)) \<longrightarrow>
      (\<exists>w'. setup posix_exists e self w = Inr w' \<and> files w' = files w2))"
proof (intro conjI impI)
  assume "\<not> fs_exists (files w) (cwd w)
        (joinpath (case output_dir of None \<Rightarrow> project_docs_dir self | Some d \<Rightarrow> d) output_name) \<and>
    \<not> fs_exists (files w) (cwd w) (template_path e template_name)"
  then have r: "create_template_file posix_exists e self template_name output_name output_dir w
      = Inr (logmsg Warning ''Template file not found: %s'' (w\<lparr>probes := probes w + 2\<rparr>))"
    by (simp add: create_template_file_def path_exists_def Let_def posix_exists_def
        template_path_def)
  show "create_template_file posix_exists e self template_name output_name output_dir w
      = Inr (logmsg Warning ''Template file not found: %s'' (w\<lparr>probes := probes w + 2\<rparr>))"
    by (rule r)
  show "files (final_world
        (create_template_file posix_exists e self template_name output_name output_dir w))
        = files w"
    by (simp add: r final_world_def logmsg_def)
  show "logged (final_world
        (create_template_file posix_exists e self template_name output_name output_dir w))
        = logged w @ [(Warning, ''Template file not found: %s'')]"
    by (simp add: r final_world_def logmsg_def)
next
  assume h: "create_directories posix_exists self w = Inr w1 \<and>
    create_symlinks posix_exists self w1 = Inr w2 \<and>
    (\<forall>t \<in> {''ignore.template'', ''todo.template.md'', ''done.template.md''}.
       \<not> fs_exists (files w2) (cwd w2) (template_path e t))"
  obtain w3 where w3: "create_ignore_file posix_exists e self w2 = Inr w3"
    "files w3 = files w2" "cwd w3 = cwd w2"
    unfolding create_ignore_file_def
    using seed_no_template [where w = w2 and e = e and template_name = "''ignore.template''"
        and self = self and output_name = "''.neuroloraignore''"
        and output_dir = "Some (project_root self)"] h
    by auto
  obtain w4 where w4: "create_template_file posix_exists e self ''todo.template.md'' ''TODO.md''
      None w3 = Inr w4" "files w4 = files w2" "cwd w4 = cwd w2"
    using seed_no_template [where w = w3 and e = e and template_name = "''todo.template.md''"
        and self = self and output_name = "''TODO.md''" and output_dir = None] h w3
    by auto
  obtain w5 where w5: "create_template_file posix_exists e self ''done.template.md'' ''DONE.md''
      None w4 = Inr w5" "files w5 = files w2"
    using seed_no_template [where w = w4 and e = e and template_name = "''done.template.md''"
        and self = self and output_name = "''DONE.md''" and output_dir = None] h w4
    by auto
  show "\<exists>w'. setup posix_exists e self w = Inr w' \<and> files w' = files w2"
    using h w3 w4 w5
    by (simp add: setup_def create_task_files_def and_then_def logmsg_def)
qed

theorem seed_without_template_witness:
  "\<not> fs_exists (files bare_world) (cwd bare_world) (joinpath app_root ''.neuroloraignore'') \<and>
   \<not> fs_exists (files bare_world) (cwd bare_world) (template_path example_env ''ignore.template'') \<and>
   raised (create_template_file posix_exists example_env example_manager
             ''ignore.template'' ''.neuroloraignore'' (Some app_root) bare_world) = None \<and>
   files (final_world (create_template_file posix_exists example_env example_manager
             ''ignore.template'' ''.neuroloraignore'' (Some app_root) bare_world))
     = files bare_world \<and>
   raised (setup posix_exists example_env example_manager bare_world) = None"
proof -
  let ?d = "create_directories posix_exists example_manager bare_world"
  let ?s = "create_symlinks posix_exists example_manager (projr ?d)"
  have a: "\<not> fs_exists (files bare_world) (cwd bare_world)
      (joinpath (case Some app_root of None \<Rightarrow> project_docs_dir example_manager | Some d \<Rightarrow> d)
         ''.neuroloraignore'')"
    and b: "\<not> fs_exists (files bare_world) (cwd bare_world)
      (template_path example_env ''ignore.template'')"
    by code_simp+
  have "\<not> isl ?d" and "\<not> isl ?s"
    by code_simp+
  then have d: "?d = Inr (projr ?d)" and s: "?s = Inr (projr ?s)"
    by simp_all
  have t: "\<forall>t \<in> {''ignore.template'', ''todo.template.md'', ''done.template.md''}.
      \<not> fs_exists (files (projr ?s)) (cwd (projr ?s)) (template_path example_env t)"
    by code_simp
  from seed_without_template [where w = bare_world and output_dir = "Some app_root"
      and self = example_manager and output_name = "''.neuroloraignore''" and e = example_env
      and template_name = "''ignore.template''" and ?w1.0 = "projr ?d" and ?w2.0 = "projr ?s"]
    a b d s t
  show ?thesis
    by (auto simp: raised_def final_world_def)
qed

section \<open>Symlink reconciler\<close>

text \<open>
  C2 at a plain directory. \<^verbatim>\<open>/tmp/app/.neurolora\<close> is an empty directory; the path exists
  and is no symbolic link, so \<^verbatim>\<open>_create_or_update_symlink\<close> calls \<^verbatim>\<open>unlink\<close>, which
  refuses a directory. The exception is raised again, and the directory is still there.
  A regular file at the same path is removed and replaced by the relative link.
\<close>

theorem reconcile_plain_directory:
  "raised (create_or_update_symlink posix_exists (neurolora_link example_manager)
             (project_docs_dir example_manager) ''.neurolora'' (blocked_world Dir))
     = Some IsADirectoryError \<and>
   files (final_world (create_or_update_symlink posix_exists (neurolora_link example_manager)
             (project_docs_dir example_manager) ''.neurolora'' (blocked_world Dir)))
     [''tmp'', ''app'', ''.neurolora''] = Some Dir \<and>
   raised (create_or_update_symlink posix_exists (neurolora_link example_manager)
             (project_docs_dir example_manager) ''.neurolora'' (blocked_world (File ''notes'')))
     = None \<and>
   files (final_world (create_or_update_symlink posix_exists (neurolora_link example_manager)
             (project_docs_dir example_manager) ''.neurolora'' (blocked_world (File ''notes''))))
     [''tmp'', ''app'', ''.neurolora'']
     = Some (Symlink \<lparr>absolute = False, parts = [''..'', ''home'', ''.mcp-docs'', ''app'']\<rparr>)"
  by code_simp

text \<open>
  C4 at a link whose target is gone. \<^verbatim>\<open>/tmp/app/.neurolora\<close> is a symbolic link to
  \<^verbatim>\<open>/gone\<close>, which does not exist. \<^verbatim>\<open>exists()\<close> follows the link and is false, so
  \<^verbatim>\<open>_create_or_update_symlink\<close> takes the branch for an absent path, where \<^verbatim>\<open>symlink_to\<close>
  finds the old link in its way. The exception is raised again, and the link still has
  its old target. A link to \<^verbatim>\<open>/pkg\<close>, which exists, is removed and replaced by the
  relative link.
\<close>

theorem reconcile_dangling_link:
  "raised (create_or_update_symlink posix_exists (neurolora_link example_manager)
             (project_docs_dir example_manager) ''.neurolora''
             (blocked_world (Symlink \<lparr>absolute = True, parts = [''gone'']\<rparr>)))
     = Some FileExistsError \<and>
   files (final_world (create_or_update_symlink posix_exists (neurolora_link example_manager)
             (project_docs_dir example_manager) ''.neurolora''
             (blocked_world (Symlink \<lparr>absolute = True, parts = [''gone'']\<rparr>))))
     [''tmp'', ''app'', ''.neurolora''] = Some (Symlink \<lparr>absolute = True, parts = [''gone'']\<rparr>) \<and>
   raised (create_or_update_symlink posix_exists (neurolora_link example_manager)
             (project_docs_dir example_manager) ''.neurolora''
             (blocked_world (Symlink \<lparr>absolute = True, parts = [''pkg'']\<rparr>)))
     = None \<and>
   files (final_world (create_or_update_symlink posix_exists (neurolora_link example_manager)
             (project_docs_dir example_manager) ''.neurolora''
             (blocked_world (Symlink \<lparr>absolute = True, parts = [''pkg'']\<rparr>))))
     [''tmp'', ''app'', ''.neurolora'']
     = Some (Symlink \<lparr>absolute = False, parts = [''..'', ''home'', ''.mcp-docs'', ''app'']\<rparr>)"
  by code_simp

section \<open>Path resolution in a growing file system\<close>

lemma same_kind_refl [simp]: "same_kind n n"
  by (cases n) auto

lemma extends_Dir: "extends fs fs' \<Longrightarrow> fs l = Some Dir \<Longrightarrow> fs' l = Some Dir"
  by (auto simp: extends_def dest!: spec [of _ l])

lemma extends_File: "extends fs fs' \<Longrightarrow> fs l = Some (File d) \<Longrightarrow> \<exists>d'. fs' l = Some (File d')"
  by (auto simp: extends_def split: node.splits dest!: spec [of _ l])

lemma extends_Symlink: "extends fs fs' \<Longrightarrow> fs l = Some (Symlink t) \<Longrightarrow> fs' l = Some (Symlink t)"
  by (auto simp: extends_def dest!: spec [of _ l])

lemma namei_skip: "c = [] \<or> c = ''.'' \<Longrightarrow> namei fs fuel follow cur (c # rest) = namei fs fuel follow cur rest"
  by auto

lemma namei_up: "c = ''..'' \<Longrightarrow> namei fs fuel follow cur (c # rest) = namei fs fuel follow (butlast cur) rest"
  by auto

lemma namei_step: "regular c \<Longrightarrow> namei fs fuel follow cur (c # rest) =
      (case fs (cur @ [c]) of
          None \<Rightarrow> if rest = [] then Missing (cur @ [c]) else Fail FileNotFoundError
        | Some Dir \<Rightarrow> namei fs fuel follow (cur @ [c]) rest
        | Some (File d) \<Rightarrow>
            if rest = [] then Found (cur @ [c]) (File d) else Fail NotADirectoryError
        | Some (Symlink t) \<Rightarrow>
            if rest = [] \<and> \<not> follow then Found (cur @ [c]) (Symlink t)
            else if fuel = 0 then Fail TooManyLinks
            else (case namei fs (fuel - 1) True (start_dir cur t) (parts t) of
                Found l Dir \<Rightarrow> namei fs fuel follow l rest
              | Found l n \<Rightarrow> if rest = [] then Found l n else Fail NotADirectoryError
              | Missing l \<Rightarrow> if rest = [] then Missing l else Fail FileNotFoundError
              | Fail e \<Rightarrow> Fail e))"
  unfolding start_dir_def by (simp add: regular_def)

declare namei.simps(2) [simp del]


lemma namei_Missing_None: "namei fs fuel follow cur ps = Missing l \<Longrightarrow> fs l = None"
proof (induction fs fuel follow cur ps rule: namei.induct)
  case (1 fs fuel follow cur)
  then show ?case by simp
next
  case (2 fs fuel follow cur c rest)
  consider (skip) "c = [] \<or> c = ''.''" | (up) "c = ''..''" | (reg) "regular c"
    by (auto simp: regular_def)
  then show ?case
  proof cases
    case skip
    then show ?thesis using 2 by (simp add: namei_skip)
  next
    case up
    then show ?thesis using 2 by (simp add: namei_up)
  next
    case reg
    then have nd: "\<not> (c = [] \<or> c = ''.'')" and ndd: "c \<noteq> ''..''"
      by (auto simp: regular_def)
    have ihD: "fs (cur @ [c]) = Some Dir \<Longrightarrow> namei fs fuel follow (cur @ [c]) rest = Missing l
        \<Longrightarrow> fs l = None"
      using "2.IH"(3) [OF nd ndd] by blast
    have ihI: "\<And>t. fs (cur @ [c]) = Some (Symlink t) \<Longrightarrow> \<not> (rest = [] \<and> \<not> follow) \<Longrightarrow> fuel \<noteq> 0
        \<Longrightarrow> namei fs (fuel - 1) True (start_dir cur t) (parts t) = Missing l \<Longrightarrow> fs l = None"
      using "2.IH"(4) [OF nd ndd] by (simp add: start_dir_def)
    have ihO: "\<And>t l'. fs (cur @ [c]) = Some (Symlink t) \<Longrightarrow> \<not> (rest = [] \<and> \<not> follow) \<Longrightarrow> fuel \<noteq> 0
        \<Longrightarrow> namei fs (fuel - 1) True (start_dir cur t) (parts t) = Found l' Dir
        \<Longrightarrow> namei fs fuel follow l' rest = Missing l \<Longrightarrow> fs l = None"
      using "2.IH"(5) [OF nd ndd] by (simp add: start_dir_def)
    from "2.prems" reg ihD ihI ihO show ?thesis
      by (auto simp: namei_step split: option.splits node.splits if_splits lookup.splits)
  qed
qed

lemma adds_files_extends: "adds_files fs fs' \<Longrightarrow> extends fs fs'"
proof -
  assume a: "adds_files fs fs'"
  have "\<exists>n'. fs' l = Some n' \<and> same_kind n n'" if "fs l = Some n" for l n
    using a [unfolded adds_files_def, rule_format, of l] that by auto
  then show ?thesis by (simp add: extends_def)
qed

lemma namei_grows:
  assumes "extends fs fs'" and "only_files \<longrightarrow> adds_files fs fs'"
  shows "grows_to follow only_files fs' (namei fs fuel follow cur ps) (namei fs' fuel follow cur ps)"
  using assms
proof (induction fs fuel follow cur ps rule: namei.induct)
  case (1 fs fuel follow cur)
  then show ?case by (simp add: grows_to_def)
next
  case (2 fs fuel follow cur c rest)
  consider (skip) "c = [] \<or> c = ''.''" | (up) "c = ''..''" | (reg) "regular c"
    by (auto simp: regular_def)
  then show ?case
  proof cases
    case skip
    then show ?thesis using 2 by (simp add: namei_skip)
  next
    case up
    then show ?thesis using 2 by (simp add: namei_up)
  next
    case reg
    then have nd: "\<not> (c = [] \<or> c = ''.'')" and ndd: "c \<noteq> ''..''"
      by (auto simp: regular_def)
    note ext = "2.prems"(1) and onl = "2.prems"(2)
    show ?thesis
    proof (cases "fs (cur @ [c])")
      case None
      have "only_files \<Longrightarrow> fs' (cur @ [c]) = None \<or> (\<exists>d. fs' (cur @ [c]) = Some (File d))"
        using onl None by (auto simp: adds_files_def dest!: spec [of _ "cur @ [c]"])
      then show ?thesis
        using reg None by (auto simp: namei_step grows_to_def split: option.splits node.splits)
    next
      case (Some nd0)
      show ?thesis
      proof (cases nd0)
        case Dir
        then show ?thesis
          using reg Some "2.IH"(3) [OF nd ndd Some Dir ext onl] extends_Dir [OF ext, of "cur @ [c]"]
          by (simp add: namei_step)
      next
        case (File d)
        then show ?thesis
          using reg Some extends_File [OF ext, of "cur @ [c]" d]
          by (auto simp: namei_step grows_to_def)
      next
        case (Symlink t)
        have s': "fs' (cur @ [c]) = Some (Symlink t)"
          using Some Symlink extends_Symlink [OF ext] by simp
        show ?thesis
        proof (cases "(rest = [] \<and> \<not> follow) \<or> fuel = 0")
          case True
          then show ?thesis
            using reg Some Symlink s' by (auto simp: namei_step grows_to_def)
        next
          case False
          then have f0: "fuel \<noteq> 0" and nr: "\<not> (rest = [] \<and> \<not> follow)" by auto
          let ?start = "start_dir cur t"
          have inner: "grows_to True only_files fs' (namei fs (fuel - 1) True ?start (parts t))
               (namei fs' (fuel - 1) True ?start (parts t))"
            using "2.IH"(4) [OF nd ndd Some Symlink nr f0 ext onl] by (simp add: start_dir_def)
          show ?thesis
          proof (cases "namei fs (fuel - 1) True ?start (parts t)")
            case (Found l n)
            then obtain n' where n': "namei fs' (fuel - 1) True ?start (parts t) = Found l n'"
               "same_kind n n'"
              using inner by (auto simp: grows_to_def)
            show ?thesis
            proof (cases n)
              case Dir
              then have "n' = Dir" using n' by simp
              moreover have "grows_to follow only_files fs' (namei fs fuel follow l rest)
                  (namei fs' fuel follow l rest)"
                using "2.IH"(5) [OF nd ndd Some Symlink nr f0 Found [unfolded start_dir_def] Dir ext onl] .
              ultimately show ?thesis
                using reg Some Symlink s' f0 nr Found Dir n'
                by (auto simp: namei_step)
            next
              case (File d)
              then obtain d' where "n' = File d'" using n' by (cases n') auto
              then show ?thesis
                using reg Some Symlink s' f0 nr Found File n'
                by (auto simp add: namei_step grows_to_def)
            next
              case (Symlink t')
              then have "n' = Symlink t'" using n' by simp
              then show ?thesis
                using reg Some \<open>nd0 = Symlink t\<close> s' f0 nr Found Symlink n'
                by (auto simp add: namei_step grows_to_def)
            qed
          next
            case (Missing l)
            have "fs l = None" using Missing by (rule namei_Missing_None)
            then have "only_files \<Longrightarrow> fs' l = None \<or> (\<exists>d. fs' l = Some (File d))"
              using onl by (auto simp: adds_files_def dest!: spec [of _ l])
            then show ?thesis
              using Missing reg Some Symlink s' f0 nr inner
              by (auto simp add: namei_step grows_to_def split: option.splits node.splits)
          next
            case (Fail e)
            then show ?thesis
              using reg Some Symlink s' f0 nr inner
              by (auto simp add: namei_step grows_to_def)
          qed
        qed
      qed
    qed
  qed
qed

lemma namei_nofollow:
  "\<not> follow \<Longrightarrow> namei fs fuel follow cur ps = r \<Longrightarrow> (\<forall>l t. r \<noteq> Found l (Symlink t))
     \<Longrightarrow> namei fs fuel True cur ps = r"
proof (induction fs fuel follow cur ps rule: namei.induct)
  case (1 fs fuel follow cur)
  then show ?case by simp
next
  case (2 fs fuel follow cur c rest)
  consider (skip) "c = [] \<or> c = ''.''" | (up) "c = ''..''" | (reg) "regular c"
    by (auto simp: regular_def)
  then show ?case
  proof cases
    case skip
    then show ?thesis using 2 by (simp add: namei_skip)
  next
    case up
    then show ?thesis using 2 by (simp add: namei_up)
  next
    case reg
    then have nd: "\<not> (c = [] \<or> c = ''.'')" and ndd: "c \<noteq> ''..''"
      by (auto simp: regular_def)
    have ihD: "fs (cur @ [c]) = Some Dir \<Longrightarrow> namei fs fuel follow (cur @ [c]) rest = r
        \<Longrightarrow> namei fs fuel True (cur @ [c]) rest = r"
      using "2.IH"(3) [OF nd ndd] "2.prems" by blast
    have ihO: "\<And>x l'. fs (cur @ [c]) = Some (Symlink x) \<Longrightarrow> rest \<noteq> [] \<Longrightarrow> fuel \<noteq> 0
        \<Longrightarrow> namei fs (fuel - 1) True (start_dir cur x) (parts x) = Found l' Dir
        \<Longrightarrow> namei fs fuel follow l' rest = r \<Longrightarrow> namei fs fuel True l' rest = r"
      using "2.IH"(5) [OF nd ndd] "2.prems" by (simp add: start_dir_def)
    from "2.prems" reg ihD ihO show ?thesis
      by (auto simp: namei_step split: option.splits node.splits if_splits lookup.splits)
  qed
qed

lemma namei_Found_node:
  "namei fs fuel follow cur ps = Found l n \<Longrightarrow> n \<noteq> Dir \<Longrightarrow> fs l = Some n"
proof (induction fs fuel follow cur ps rule: namei.induct)
  case (1 fs fuel follow cur)
  then show ?case by simp
next
  case (2 fs fuel follow cur c rest)
  consider (skip) "c = [] \<or> c = ''.''" | (up) "c = ''..''" | (reg) "regular c"
    by (auto simp: regular_def)
  then show ?case
  proof cases
    case skip
    then show ?thesis using 2 by (simp add: namei_skip)
  next
    case up
    then show ?thesis using 2 by (simp add: namei_up)
  next
    case reg
    then have nd: "\<not> (c = [] \<or> c = ''.'')" and ndd: "c \<noteq> ''..''"
      by (auto simp: regular_def)
    have ihD: "fs (cur @ [c]) = Some Dir \<Longrightarrow> namei fs fuel follow (cur @ [c]) rest = Found l n
        \<Longrightarrow> fs l = Some n"
      using "2.IH"(3) [OF nd ndd] "2.prems" by blast
    have ihI: "\<And>t. fs (cur @ [c]) = Some (Symlink t) \<Longrightarrow> \<not> (rest = [] \<and> \<not> follow) \<Longrightarrow> fuel \<noteq> 0
        \<Longrightarrow> namei fs (fuel - 1) True (start_dir cur t) (parts t) = Found l n \<Longrightarrow> fs l = Some n"
      using "2.IH"(4) [OF nd ndd] "2.prems" by (simp add: start_dir_def)
    have ihO: "\<And>t l'. fs (cur @ [c]) = Some (Symlink t) \<Longrightarrow> \<not> (rest = [] \<and> \<not> follow) \<Longrightarrow> fuel \<noteq> 0
        \<Longrightarrow> namei fs (fuel - 1) True (start_dir cur t) (parts t) = Found l' Dir
        \<Longrightarrow> namei fs fuel follow l' rest = Found l n \<Longrightarrow> fs l = Some n"
      using "2.IH"(5) [OF nd ndd] "2.prems" by (simp add: start_dir_def)
    from "2.prems" reg ihD ihI ihO show ?thesis
      by (auto simp: namei_step split: option.splits node.splits if_splits lookup.splits)
  qed
qed

lemma joinrealpath_skip:
  "c = [] \<or> c = ''.'' \<Longrightarrow> joinrealpath fs fuel cur (c # rest) = joinrealpath fs fuel cur rest"
  by auto

lemma joinrealpath_up:
  "c = ''..'' \<Longrightarrow> joinrealpath fs fuel cur (c # rest) = joinrealpath fs fuel (butlast cur) rest"
  by auto

lemma joinrealpath_step:
  "regular c \<Longrightarrow> joinrealpath fs fuel cur (c # rest) =
     (case fs (cur @ [c]) of
          Some (Symlink t) \<Rightarrow>
            if fuel = 0 then (cur @ [c] @ rest, False)
            else (case joinrealpath fs (fuel - 1) (start_dir cur t) (parts t) of
                (p, ok) \<Rightarrow> if ok then joinrealpath fs fuel p rest else (p @ rest, False))
        | _ \<Rightarrow> joinrealpath fs fuel (cur @ [c]) rest)"
  unfolding start_dir_def by (simp add: regular_def)

declare joinrealpath.simps(2) [simp del]

lemma namei_joinrealpath:
  "follow \<Longrightarrow> namei fs fuel follow cur ps = Found l n \<Longrightarrow> joinrealpath fs fuel cur ps = (l, True)"
proof (induction fs fuel follow cur ps arbitrary: l n rule: namei.induct)
  case (1 fs fuel follow cur)
  then show ?case by simp
next
  case (2 fs fuel follow cur c rest)
  consider (skip) "c = [] \<or> c = ''.''" | (up) "c = ''..''" | (reg) "regular c"
    by (auto simp: regular_def)
  then show ?case
  proof cases
    case skip
    then show ?thesis using 2 by (simp add: namei_skip joinrealpath_skip)
  next
    case up
    then show ?thesis using 2 by (simp add: namei_up joinrealpath_up)
  next
    case reg
    then have nd: "\<not> (c = [] \<or> c = ''.'')" and ndd: "c \<noteq> ''..''"
      by (auto simp: regular_def)
    have ihD: "fs (cur @ [c]) = Some Dir \<Longrightarrow> namei fs fuel follow (cur @ [c]) rest = Found l n
        \<Longrightarrow> joinrealpath fs fuel (cur @ [c]) rest = (l, True)"
      using "2.IH"(3) [OF nd ndd] "2.prems" by blast
    have ihI: "\<And>t l n. fs (cur @ [c]) = Some (Symlink t) \<Longrightarrow> fuel \<noteq> 0
        \<Longrightarrow> namei fs (fuel - 1) True (start_dir cur t) (parts t) = Found l n
        \<Longrightarrow> joinrealpath fs (fuel - 1) (start_dir cur t) (parts t) = (l, True)"
      using "2.IH"(4) [OF nd ndd] "2.prems" by (simp add: start_dir_def)
    have ihO: "\<And>t l'. fs (cur @ [c]) = Some (Symlink t) \<Longrightarrow> fuel \<noteq> 0
        \<Longrightarrow> namei fs (fuel - 1) True (start_dir cur t) (parts t) = Found l' Dir
        \<Longrightarrow> namei fs fuel follow l' rest = Found l n \<Longrightarrow> joinrealpath fs fuel l' rest = (l, True)"
      using "2.IH"(5) [OF nd ndd] "2.prems" by (simp add: start_dir_def)
    show ?thesis
    proof (cases "fs (cur @ [c])")
      case None
      then show ?thesis using "2.prems" reg by (auto simp: namei_step split: if_splits)
    next
      case (Some nd0)
      show ?thesis
      proof (cases nd0)
        case Dir
        then show ?thesis using "2.prems" reg Some ihD by (simp add: namei_step joinrealpath_step)
      next
        case (File d)
        then show ?thesis using "2.prems" reg Some
          by (auto simp: namei_step joinrealpath_step split: if_splits)
      next
        case (Symlink t)
        have f0: "fuel \<noteq> 0"
          using "2.prems" reg Some Symlink by (auto simp: namei_step split: if_splits)
        show ?thesis
        proof (cases "namei fs (fuel - 1) True (start_dir cur t) (parts t)")
          case (Found l' n')
          have j: "joinrealpath fs (fuel - 1) (start_dir cur t) (parts t) = (l', True)"
            using ihI Some Symlink f0 Found by blast
          show ?thesis
          proof (cases n')
            case Dir
            then have "namei fs fuel follow l' rest = Found l n"
              using "2.prems" reg Some Symlink f0 Found by (auto simp: namei_step)
            then have "joinrealpath fs fuel l' rest = (l, True)"
              using ihO Some Symlink f0 Found Dir by blast
            then show ?thesis
              using reg Some Symlink f0 j by (simp add: joinrealpath_step)
          next
            case (File d)
            then show ?thesis
              using "2.prems" reg Some Symlink f0 Found j
              by (auto simp: namei_step joinrealpath_step split: if_splits)
          next
            case (Symlink t')
            then show ?thesis
              using "2.prems" reg Some \<open>nd0 = Symlink t\<close> f0 Found j
              by (auto simp: namei_step joinrealpath_step split: if_splits)
          qed
        next
          case (Missing l')
          then show ?thesis
            using "2.prems" reg Some Symlink f0 by (auto simp: namei_step split: if_splits)
        next
          case (Fail e)
          then show ?thesis
            using "2.prems" reg Some Symlink f0 by (auto simp: namei_step split: if_splits)
        qed
      qed
    qed
  qed
qed

lemma stat_resolve:
  "stat fs wd p = Found l n \<Longrightarrow> resolve fs wd p = Inr \<lparr>absolute = True, parts = l\<rparr>"
  unfolding stat_def resolve_def
  using namei_joinrealpath [of True fs max_links "start_dir wd p" "parts p" l n] by simp

text \<open>What the calls that succeed do to the files.\<close>

lemma adds_dirs_refl [simp]: "adds_dirs fs fs"
  by (simp add: adds_dirs_def)

lemma adds_dirs_trans: "adds_dirs a b \<Longrightarrow> adds_dirs b c \<Longrightarrow> adds_dirs a c"
proof -
  assume ab: "adds_dirs a b" and bc: "adds_dirs b c"
  have "c l = a l \<or> (a l = None \<and> c l = Some Dir)" for l
    using ab [unfolded adds_dirs_def, rule_format, of l] bc [unfolded adds_dirs_def, rule_format, of l]
    by auto
  then show ?thesis by (simp add: adds_dirs_def)
qed

lemma adds_dirs_extends: "adds_dirs fs fs' \<Longrightarrow> extends fs fs'"
proof -
  assume a: "adds_dirs fs fs'"
  have "\<exists>n'. fs' l = Some n' \<and> same_kind n n'" if "fs l = Some n" for l n
    using a [unfolded adds_dirs_def, rule_format, of l] that by auto
  then show ?thesis by (simp add: extends_def)
qed

lemma extends_refl [simp]: "extends fs fs"
  by (simp add: extends_def)

lemma same_kind_trans: "same_kind a b \<Longrightarrow> same_kind b c \<Longrightarrow> same_kind a c"
  by (cases a; cases b; cases c) auto

lemma extends_trans: "extends a b \<Longrightarrow> extends b c \<Longrightarrow> extends a c"
proof -
  assume ab: "extends a b" and bc: "extends b c"
  have "\<exists>n'. c l = Some n' \<and> same_kind n n'" if h: "a l = Some n" for l n
  proof -
    obtain m where m: "b l = Some m" "same_kind n m"
      using ab h by (auto simp: extends_def)
    obtain k where k: "c l = Some k" "same_kind m k"
      using bc m by (auto simp: extends_def)
    show ?thesis using m k same_kind_trans by blast
  qed
  then show ?thesis by (simp add: extends_def)
qed

lemma extends_upd: "fs l = None \<Longrightarrow> extends fs (fs(l \<mapsto> n))"
  by (auto simp: extends_def)

lemma lstat_Missing_stat: "lstat fs wd p = Missing l \<Longrightarrow> stat fs wd p = Missing l"
  unfolding lstat_def stat_def
  using namei_nofollow [of False fs max_links "start_dir wd p" "parts p" "Missing l"] by simp

lemma lstat_Missing_None: "lstat fs wd p = Missing l \<Longrightarrow> fs l = None"
  unfolding lstat_def by (rule namei_Missing_None)

lemma stat_Missing_None: "stat fs wd p = Missing l \<Longrightarrow> fs l = None"
  unfolding stat_def by (rule namei_Missing_None)

lemma stat_grows:
  "extends fs fs' \<Longrightarrow> only_files \<longrightarrow> adds_files fs fs' \<Longrightarrow>
   grows_to True only_files fs' (stat fs wd p) (stat fs' wd p)"
  unfolding stat_def by (rule namei_grows)

lemma lstat_grows:
  "extends fs fs' \<Longrightarrow> only_files \<longrightarrow> adds_files fs fs' \<Longrightarrow>
   grows_to False only_files fs' (lstat fs wd p) (lstat fs' wd p)"
  unfolding lstat_def by (rule namei_grows)

lemma os_mkdir_Inr:
  assumes "os_mkdir fs wd p = Inr fs'"
  shows "adds_dirs fs fs' \<and> is_dir fs' wd p"
proof -
  from assms obtain l where l: "lstat fs wd p = Missing l" and fs': "fs' = fs(l \<mapsto> Dir)"
    by (auto simp: os_mkdir_def split: lookup.splits)
  have n: "fs l = None" using l by (rule lstat_Missing_None)
  have "stat fs wd p = Missing l" using l by (rule lstat_Missing_stat)
  moreover have "extends fs fs'" using n fs' by (simp add: extends_upd)
  ultimately have "stat fs' wd p = Found l Dir"
    using stat_grows [of fs fs' False wd p] fs' by (simp add: grows_to_def)
  then show ?thesis
    using n fs' by (auto simp: adds_dirs_def is_dir_def)
qed

lemma mkdir_exist_ok_Inr:
  assumes "mkdir_exist_ok fs wd p = Inr fs'"
  shows "adds_dirs fs fs' \<and> is_dir fs' wd p"
  using assms os_mkdir_Inr [of fs wd p]
  by (auto simp: mkdir_exist_ok_def split: sum.splits if_splits)

lemma mkdir_p_Inr:
  "mkdir_p fs wd p = Inr fs' \<Longrightarrow> adds_dirs fs fs' \<and> is_dir fs' wd p"
proof (induction fs wd p arbitrary: fs' rule: mkdir_p.induct)
  case (1 fs wd p)
  show ?case
  proof (cases "os_mkdir fs wd p")
    case (Inr f)
    then show ?thesis
      using "1.prems" os_mkdir_Inr [of fs wd p f] by (subst (asm) mkdir_p.simps) simp
  next
    case (Inl e)
    show ?thesis
    proof (cases "e = FileNotFoundError")
      case False
      then show ?thesis
        using "1.prems" Inl by (subst (asm) mkdir_p.simps) (auto split: if_splits)
    next
      case True
      then have np: "parent p \<noteq> p"
        using "1.prems" Inl by (subst (asm) mkdir_p.simps) (auto split: if_splits)
      then obtain fs1 where a: "mkdir_p fs wd (parent p) = Inr fs1"
        and b: "mkdir_exist_ok fs1 wd p = Inr fs'"
        using "1.prems" Inl True
        by (subst (asm) mkdir_p.simps) (auto split: if_splits sum.splits)
      have "adds_dirs fs fs1"
        using "1.IH" [OF Inl True np a] by simp
      then show ?thesis
        using mkdir_exist_ok_Inr [OF b] adds_dirs_trans by blast
    qed
  qed
qed


lemma mkdir_parents_Inr:
  "mkdir_parents p w = Inr w' \<longleftrightarrow>
     (\<exists>fs'. mkdir_p (files w) (cwd w) p = Inr fs' \<and> w' = w\<lparr>files := fs'\<rparr>)"
  by (auto simp: mkdir_parents_def split: sum.splits)

lemma symlink_to_Inr:
  assumes "symlink_to p t fs wd = Inr fs'"
  shows "\<exists>l. fs' = fs(l \<mapsto> Symlink t) \<and> lstat fs wd p = Missing l \<and> fs l = None
     \<and> lstat fs' wd p = Found l (Symlink t)"
proof -
  from assms obtain l where fs': "fs' = fs(l \<mapsto> Symlink t)" and s: "lstat fs wd p = Missing l"
    by (auto simp: symlink_to_def split: lookup.splits)
  have n: "fs l = None" using s by (rule lstat_Missing_None)
  then have e: "extends fs fs'" using fs' by (simp add: extends_upd)
  have "lstat fs' wd p = Found l (Symlink t)"
    using s lstat_grows [OF e, of False wd p] fs' by (simp add: grows_to_def)
  then show ?thesis using fs' s n by blast
qed

lemma write_text_Inr:
  assumes "write_text p c fs wd = Inr fs'"
  shows "\<exists>l. fs' = fs(l \<mapsto> File c) \<and> (stat fs wd p = Missing l \<or> (\<exists>d. stat fs wd p = Found l (File d)))
     \<and> stat fs' wd p = Found l (File c) \<and> extends fs fs'"
proof -
  from assms obtain l where fs': "fs' = fs(l \<mapsto> File c)"
    and s: "stat fs wd p = Missing l \<or> (\<exists>d. stat fs wd p = Found l (File d))"
    by (auto simp: write_text_def split: lookup.splits node.splits)
  from s have k: "fs l = None \<or> (\<exists>d. fs l = Some (File d))"
    using stat_Missing_None [of fs wd p l] namei_Found_node [of fs max_links True "start_dir wd p" "parts p" l]
    by (auto simp: stat_def)
  then have e: "extends fs fs'"
    using fs' by (auto simp: extends_def)
  have g: "grows_to True False fs' (stat fs wd p) (stat fs' wd p)"
    using stat_grows [OF e, of False wd p] by simp
  have "stat fs' wd p = Found l (File c)"
    using s
  proof
    assume "stat fs wd p = Missing l"
    then show ?thesis using g fs' by (simp add: grows_to_def)
  next
    assume "\<exists>d. stat fs wd p = Found l (File d)"
    then obtain d where "stat fs wd p = Found l (File d)" by blast
    then obtain n' where n': "stat fs' wd p = Found l n'" "same_kind (File d) n'"
      using g by (auto simp: grows_to_def)
    then obtain d' where d': "n' = File d'" by (cases n') auto
    then have "fs' l = Some (File d')"
      using n' namei_Found_node [of fs' max_links True "start_dir wd p" "parts p" l n']
      by (simp add: stat_def)
    then show ?thesis using fs' n' d' by simp
  qed
  then show ?thesis using fs' s e by blast
qed

subsection \<open>The construction\<close>




subsection \<open>The reconciler\<close>

text \<open>The calls of the reconciler, on the file system's own existence check.\<close>

lemma fs_op_Inr:
  "fs_op f w = Inr w' \<longleftrightarrow> (\<exists>fs'. f (files w) (cwd w) = Inr fs' \<and> w' = w\<lparr>files := fs'\<rparr>)"
  by (auto simp: fs_op_def split: sum.splits)

lemma and_then_Inr:
  "and_then r f = Inr w' \<longleftrightarrow> (\<exists>w1. r = Inr w1 \<and> f w1 = Inr w')"
  by (cases r) (auto simp: and_then_def)

lemma on_error_Inr: "on_error m r = Inr w' \<longleftrightarrow> r = Inr w'"
  by (cases r) (auto simp: on_error_def)

lemma verify_symlink_Inr:
  "verify_symlink posix_exists link target w = Inr w' \<Longrightarrow>
     files w' = files w \<and> cwd w' = cwd w \<and> link_ok (files w) (cwd w) link target"
  by (auto simp: verify_symlink_def path_exists_def posix_exists_def link_ok_def logmsg_def
      split: if_splits sum.splits)

lemma verify_symlink_ok:
  "link_ok (files w) (cwd w) link target \<Longrightarrow>
     \<exists>w'. verify_symlink posix_exists link target w = Inr w' \<and> files w' = files w \<and> cwd w' = cwd w"
  by (auto simp: verify_symlink_def path_exists_def posix_exists_def link_ok_def logmsg_def)

lemma update_symlink_Inr:
  assumes "update_symlink posix_exists link target nm rel w = Inr w'"
  shows "cwd w' = cwd w \<and>
      (files w' = files w \<or>
       (\<not> fs_exists (files w) (cwd w) link \<and>
          symlink_to link rel (files w) (cwd w) = Inr (files w')) \<or>
       (fs_exists (files w) (cwd w) link \<and>
          (\<exists>f2. unlink link (files w) (cwd w) = Inr f2 \<and>
             symlink_to link rel f2 (cwd w) = Inr (files w'))))"
proof (cases "fs_exists (files w) (cwd w) link")
  case False
  then show ?thesis
    using assms
    by (auto simp: update_symlink_def path_exists_def posix_exists_def and_then_Inr fs_op_Inr
        logmsg_def)
next
  case True
  then show ?thesis
    using assms
    by (auto simp: update_symlink_def path_exists_def posix_exists_def and_then_Inr fs_op_Inr
        logmsg_def Let_def split: if_splits sum.splits)
qed

lemma create_or_update_symlink_Inr:
  assumes "create_or_update_symlink posix_exists link target nm w = Inr w'"
  shows "\<exists>f1. mkdir_p (files w) (cwd w) target = Inr f1 \<and> cwd w' = cwd w \<and>
      link_ok (files w') (cwd w) link target \<and>
      (files w' = f1 \<or>
       (\<not> fs_exists f1 (cwd w) link \<and>
          symlink_to link (relpath (cwd w) target (parent link)) f1 (cwd w) = Inr (files w')) \<or>
       (fs_exists f1 (cwd w) link \<and>
          (\<exists>f2. unlink link f1 (cwd w) = Inr f2 \<and>
             symlink_to link (relpath (cwd w) target (parent link)) f2 (cwd w) = Inr (files w'))))"
proof -
  from assms obtain w1 w4 where
    m: "mkdir_parents target (logmsg Debug ''Creating symlink: %s -> %s'' w) = Inr w1"
    and u: "update_symlink posix_exists link target nm (relpath (cwd w1) target (parent link)) w1
        = Inr w4"
    and v: "verify_symlink posix_exists link target w4 = Inr w'"
    unfolding create_or_update_symlink_def on_error_Inr and_then_Inr by blast
  from m obtain f1 where f1: "mkdir_p (files w) (cwd w) target = Inr f1"
    and w1: "files w1 = f1" "cwd w1 = cwd w"
    by (auto simp: mkdir_parents_Inr logmsg_def)
  from update_symlink_Inr [OF u] verify_symlink_Inr [OF v] f1 w1
  show ?thesis
    by auto
qed

lemma create_or_update_symlink_ok:
  assumes "is_dir (files w) (cwd w) target" and "link_ok (files w) (cwd w) link target"
  shows "\<exists>w'. create_or_update_symlink posix_exists link target nm w = Inr w' \<and>
     files w' = files w \<and> cwd w' = cwd w"
proof -
  let ?w1 = "logmsg Debug ''Creating symlink: %s -> %s'' w"
  have m: "mkdir_parents target ?w1 = Inr ?w1"
    using assms(1) by (simp add: mkdir_parents_def logmsg_def mkdir_p_is_dir)
  let ?w3 = "logmsg Debug ''Link path exists: %s'' (?w1\<lparr>probes := Suc (probes ?w1)\<rparr>)"
  have u: "update_symlink posix_exists link target nm (relpath (cwd ?w1) target (parent link)) ?w1
      = Inr ?w3"
    using assms(2)
    by (simp add: update_symlink_def path_exists_def posix_exists_def link_ok_def logmsg_def)
  have "link_ok (files ?w3) (cwd ?w3) link target"
    using assms(2) by (simp add: logmsg_def)
  from verify_symlink_ok [OF this] obtain w' where
    "verify_symlink posix_exists link target ?w3 = Inr w'" "files w' = files w" "cwd w' = cwd w"
    by (auto simp: logmsg_def)
  then show ?thesis
    using m u by (simp add: create_or_update_symlink_def on_error_def and_then_def)
qed








section \<open>Set-up, twice\<close>

text \<open>What each step of \<^verbatim>\<open>setup\<close> does when it succeeds, and when it has nothing to do.\<close>

lemma poll_directory_Inr:
  "poll_directory ex self n w = Inr w' \<Longrightarrow> files w' = files w \<and> cwd w' = cwd w"
  by (induction n arbitrary: w) (auto simp: path_exists_def sleep_def split: if_splits)

lemma poll_symlink_Inr:
  "poll_symlink ex self n w = Inr w' \<Longrightarrow> files w' = files w \<and> cwd w' = cwd w"
  by (induction n arbitrary: w) (auto simp: path_exists_def sleep_def split: if_splits)

lemma create_directories_Inr:
  assumes "create_directories ex self w = Inr w'"
  shows "\<exists>f1. mkdir_p (files w) (cwd w) (project_docs_dir self) = Inr f1 \<and>
     write_text (joinpath (project_docs_dir self) ''.initialized'') ''initialized'' f1 (cwd w)
       = Inr (files w') \<and> cwd w' = cwd w"
  using assms
  by (auto simp: create_directories_def on_error_Inr and_then_Inr fs_op_Inr mkdir_parents_Inr
      path_exists_def logmsg_def split: if_splits dest!: poll_directory_Inr)

lemma is_dir_fs_exists: "is_dir fs wd p \<Longrightarrow> fs_exists fs wd p"
  by (auto simp: is_dir_def fs_exists_def split: lookup.splits)

lemma create_directories_ok:
  assumes "is_dir (files w) (cwd w) (project_docs_dir self)"
    and "stat (files w) (cwd w) (joinpath (project_docs_dir self) ''.initialized'')
           = Found lm (File ''initialized'')"
  shows "\<exists>w'. create_directories posix_exists self w = Inr w' \<and> files w' = files w \<and> cwd w' = cwd w"
proof -
  have m: "mkdir_p (files w) (cwd w) (project_docs_dir self) = Inr (files w)"
    using assms(1) by (rule mkdir_p_is_dir)
  have "files w lm = Some (File ''initialized'')"
    using assms(2) namei_Found_node [of "files w" max_links True _ _ lm "File ''initialized''"]
    by (simp add: stat_def)
  then have "(files w)(lm \<mapsto> File ''initialized'') = files w"
    by (rule fun_upd_idem)
  then have t: "write_text (joinpath (project_docs_dir self) ''.initialized'') ''initialized''
      (files w) (cwd w) = Inr (files w)"
    using assms(2) by (simp add: write_text_def)
  have e: "fs_exists (files w) (cwd w) (project_docs_dir self)"
    using assms(1) by (rule is_dir_fs_exists)
  show ?thesis
    using m t e
    by (simp add: create_directories_def on_error_def and_then_def fs_op_def mkdir_parents_def
        path_exists_def posix_exists_def logmsg_def max_retries_def numeral_eq_Suc)
qed

lemma create_symlinks_Inr:
  assumes "create_symlinks ex self w = Inr w'"
  shows "\<exists>w2. create_or_update_symlink ex (neurolora_link self) (project_docs_dir self)
       ''.neurolora'' w = Inr w2 \<and> files w' = files w2 \<and> cwd w' = cwd w2"
  using assms
  by (auto simp: create_symlinks_def on_error_Inr and_then_Inr logmsg_def dest!: poll_symlink_Inr)

lemma create_symlinks_ok:
  assumes "is_dir (files w) (cwd w) (project_docs_dir self)"
    and "link_ok (files w) (cwd w) (neurolora_link self) (project_docs_dir self)"
  shows "\<exists>w'. create_symlinks posix_exists self w = Inr w' \<and> files w' = files w \<and> cwd w' = cwd w"
proof -
  from create_or_update_symlink_ok [OF assms, of "''.neurolora''"] obtain w1 where
    w1: "create_or_update_symlink posix_exists (neurolora_link self) (project_docs_dir self)
       ''.neurolora'' w = Inr w1" "files w1 = files w" "cwd w1 = cwd w"
    by blast
  have "fs_exists (files w1) (cwd w1) (neurolora_link self)"
    "is_symlink (files w1) (cwd w1) (neurolora_link self)"
    using assms(2) w1 by (simp_all add: link_ok_def)
  then show ?thesis
    using w1
    by (simp add: create_symlinks_def on_error_def and_then_def path_exists_def
        posix_exists_def logmsg_def max_retries_def numeral_eq_Suc)
qed

lemma create_template_file_Inr:
  assumes "create_template_file posix_exists e self tn oname od w = Inr w'"
  shows "cwd w' = cwd w \<and>
     ((files w' = files w \<and>
         (fs_exists (files w) (cwd w)
            (joinpath (case od of None \<Rightarrow> project_docs_dir self | Some d \<Rightarrow> d) oname) \<or>
          \<not> fs_exists (files w) (cwd w) (template_path e tn))) \<or>
      (\<not> fs_exists (files w) (cwd w)
            (joinpath (case od of None \<Rightarrow> project_docs_dir self | Some d \<Rightarrow> d) oname) \<and>
       (\<exists>c. write_text (joinpath (case od of None \<Rightarrow> project_docs_dir self | Some d \<Rightarrow> d) oname)
              c (files w) (cwd w) = Inr (files w'))))"
  using assms
  by (auto simp: create_template_file_def path_exists_def posix_exists_def Let_def logmsg_def
      template_path_def fs_op_Inr io_error_def split: if_splits sum.splits)

lemma create_template_file_ok:
  assumes "fs_exists (files w) (cwd w)
            (joinpath (case od of None \<Rightarrow> project_docs_dir self | Some d \<Rightarrow> d) oname) \<or>
          \<not> fs_exists (files w) (cwd w) (template_path e tn)"
  shows "\<exists>w'. create_template_file posix_exists e self tn oname od w = Inr w' \<and>
     files w' = files w \<and> cwd w' = cwd w"
  using assms
  by (auto simp: create_template_file_def path_exists_def posix_exists_def Let_def logmsg_def
      template_path_def)

text \<open>What an extension of the files preserves.\<close>

lemma extends_is_dir: "extends fs fs' \<Longrightarrow> is_dir fs wd p \<Longrightarrow> is_dir fs' wd p"
  using stat_grows [of fs fs' False wd p]
  by (auto simp: is_dir_def grows_to_def split: lookup.splits node.splits)

lemma extends_fs_exists: "extends fs fs' \<Longrightarrow> fs_exists fs wd p \<Longrightarrow> fs_exists fs' wd p"
  using stat_grows [of fs fs' False wd p]
  by (auto simp: fs_exists_def grows_to_def split: lookup.splits)

lemma extends_is_symlink: "extends fs fs' \<Longrightarrow> is_symlink fs wd p \<Longrightarrow> is_symlink fs' wd p"
  using lstat_grows [of fs fs' False wd p]
  by (auto simp: is_symlink_def grows_to_def split: lookup.splits node.splits)

lemma extends_link_ok:
  assumes "extends fs fs'" and "link_ok fs wd link target"
  shows "link_ok fs' wd link target"
proof -
  from assms(2) obtain l n where s: "stat fs wd link = Found l n"
    by (auto simp: link_ok_def fs_exists_def split: lookup.splits)
  then obtain n' where s': "stat fs' wd link = Found l n'"
    using stat_grows [OF assms(1), of False wd link] by (auto simp: grows_to_def)
  have "resolve fs' wd link = resolve fs wd link"
    using stat_resolve [OF s] stat_resolve [OF s'] by simp
  then show ?thesis
    using assms extends_fs_exists extends_is_symlink by (auto simp: link_ok_def)
qed

lemma map_le_extends: "fs \<subseteq>\<^sub>m fs' \<Longrightarrow> extends fs fs'"
proof -
  assume a: "fs \<subseteq>\<^sub>m fs'"
  have "\<exists>n'. fs' l = Some n' \<and> same_kind n n'" if h: "fs l = Some n" for l n
    using a h by (auto simp: map_le_def dom_def dest!: bspec [of _ _ l])
  then show ?thesis by (simp add: extends_def)
qed

lemma adds_dirs_map_le: "adds_dirs fs fs' \<Longrightarrow> fs \<subseteq>\<^sub>m fs'"
proof -
  assume a: "adds_dirs fs fs'"
  have "fs l = fs' l" if h: "l \<in> dom fs" for l
    using a [unfolded adds_dirs_def, rule_format, of l] h by auto
  then show ?thesis by (simp add: map_le_def)
qed

lemma map_le_stat_File:
  assumes "fs \<subseteq>\<^sub>m fs'" and "stat fs wd p = Found l (File c)"
  shows "stat fs' wd p = Found l (File c)"
proof -
  obtain n' where n': "stat fs' wd p = Found l n'" "same_kind (File c) n'"
    using stat_grows [OF map_le_extends [OF assms(1)], of False wd p] assms(2)
    by (auto simp: grows_to_def)
  then obtain d where d: "n' = File d" by (cases n') auto
  have "fs l = Some (File c)"
    using assms(2) namei_Found_node [of fs max_links True _ _ l "File c"] by (simp add: stat_def)
  then have "fs' l = Some (File c)"
    using assms(1) by (auto simp: map_le_def dom_def dest!: bspec [of _ _ l])
  moreover have "fs' l = Some (File d)"
    using n' d namei_Found_node [of fs' max_links True _ _ l "File d"] by (simp add: stat_def)
  ultimately show ?thesis using n' d by simp
qed

lemma map_le_upd: "fs l = None \<Longrightarrow> fs \<subseteq>\<^sub>m fs(l \<mapsto> n)"
  by (auto simp: map_le_def)

text \<open>
  One seeding step keeps every entry as it is, and afterwards the file exists unless
  the template was missing.
\<close>

lemma seed_step:
  assumes "create_template_file posix_exists e self tn oname od w = Inr w'"
  shows "cwd w' = cwd w \<and> files w \<subseteq>\<^sub>m files w' \<and>
     (fs_exists (files w') (cwd w)
        (joinpath (case od of None \<Rightarrow> project_docs_dir self | Some d \<Rightarrow> d) oname) \<or>
      \<not> fs_exists (files w) (cwd w) (template_path e tn))"
proof -
  let ?out = "joinpath (case od of None \<Rightarrow> project_docs_dir self | Some d \<Rightarrow> d) oname"
  from create_template_file_Inr [OF assms] have c: "cwd w' = cwd w"
    and k: "(files w' = files w \<and>
         (fs_exists (files w) (cwd w) ?out \<or> \<not> fs_exists (files w) (cwd w) (template_path e tn))) \<or>
      (\<not> fs_exists (files w) (cwd w) ?out \<and>
       (\<exists>c. write_text ?out c (files w) (cwd w) = Inr (files w')))"
    by simp_all
  from k show ?thesis
  proof
    assume "files w' = files w \<and>
      (fs_exists (files w) (cwd w) ?out \<or> \<not> fs_exists (files w) (cwd w) (template_path e tn))"
    then show ?thesis using c by auto
  next
    assume "\<not> fs_exists (files w) (cwd w) ?out \<and>
      (\<exists>c. write_text ?out c (files w) (cwd w) = Inr (files w'))"
    then obtain ct where n: "\<not> fs_exists (files w) (cwd w) ?out"
      and wr: "write_text ?out ct (files w) (cwd w) = Inr (files w')"
      by blast
    from write_text_Inr [OF wr] obtain l where fs': "files w' = (files w)(l \<mapsto> File ct)"
      and s: "stat (files w) (cwd w) ?out = Missing l \<or>
          (\<exists>d. stat (files w) (cwd w) ?out = Found l (File d))"
      and sa: "stat (files w') (cwd w) ?out = Found l (File ct)"
      by blast
    from s n have "stat (files w) (cwd w) ?out = Missing l"
      by (auto simp: fs_exists_def)
    then have "files w l = None"
      by (rule stat_Missing_None)
    then have "files w \<subseteq>\<^sub>m files w'"
      unfolding fs' by (rule map_le_upd)
    moreover have "fs_exists (files w') (cwd w) ?out"
      using sa by (simp add: fs_exists_def)
    ultimately show ?thesis using c by simp
  qed
qed

text \<open>A seeding step that leaves the files as they are had nothing to do.\<close>

lemma seed_idle:
  assumes "create_template_file posix_exists e self tn oname od w = Inr w'"
    and "files w' = files w"
  shows "fs_exists (files w) (cwd w)
        (joinpath (case od of None \<Rightarrow> project_docs_dir self | Some d \<Rightarrow> d) oname) \<or>
      \<not> fs_exists (files w) (cwd w) (template_path e tn)"
proof -
  let ?out = "joinpath (case od of None \<Rightarrow> project_docs_dir self | Some d \<Rightarrow> d) oname"
  from create_template_file_Inr [OF assms(1)] have
    k: "(files w' = files w \<and>
         (fs_exists (files w) (cwd w) ?out \<or> \<not> fs_exists (files w) (cwd w) (template_path e tn))) \<or>
      (\<not> fs_exists (files w) (cwd w) ?out \<and>
       (\<exists>c. write_text ?out c (files w) (cwd w) = Inr (files w')))"
    by simp
  from k show ?thesis
  proof
    assume "files w' = files w \<and>
      (fs_exists (files w) (cwd w) ?out \<or> \<not> fs_exists (files w) (cwd w) (template_path e tn))"
    then show ?thesis by simp
  next
    assume "\<not> fs_exists (files w) (cwd w) ?out \<and>
      (\<exists>c. write_text ?out c (files w) (cwd w) = Inr (files w'))"
    then obtain ct where n: "\<not> fs_exists (files w) (cwd w) ?out"
      and wr: "write_text ?out ct (files w) (cwd w) = Inr (files w')"
      by blast
    from write_text_Inr [OF wr] have "fs_exists (files w') (cwd w) ?out"
      by (auto simp: fs_exists_def)
    then show ?thesis using n assms(2) by simp
  qed
qed

text \<open>
  What a seeding step has established in the files \<open>G\<close> holds of the later files \<open>F\<close>,
  when no template has come into existence on the way from \<open>f0\<close> to \<open>F\<close>.
\<close>

lemma seed_settled:
  assumes "fs_exists G wd out \<or> \<not> fs_exists G0 wd t"
    and "extends f0 G0" and "extends G F"
    and "fs_exists F wd t \<longrightarrow> fs_exists f0 wd t \<or> fs_exists F wd out"
  shows "fs_exists F wd out \<or> \<not> fs_exists F wd t"
  using assms(1)
proof
  assume "fs_exists G wd out"
  then show ?thesis using extends_fs_exists [OF assms(3)] by simp
next
  assume "\<not> fs_exists G0 wd t"
  then have "\<not> fs_exists f0 wd t"
    using extends_fs_exists [OF assms(2)] by blast
  then show ?thesis using assms(4) by blast
qed

text \<open>
  C1, as the code has it. Let the first \<^verbatim>\<open>setup\<close> succeed, on the file system's own
  existence check, on a fresh project root: nothing is at \<^verbatim>\<open>.neurolora\<close> under the root
  once \<^verbatim>\<open>_create_directories\<close> has written the documents directory and the marker. Then
  a second \<^verbatim>\<open>setup\<close>, in the state that the first one left, succeeds and leaves the file
  system exactly as it found it (every directory, every file with its content, every link
  with its target) if and only if the first call has not made a template: every template
  that exists after the first call existed before it, or the file seeded from it exists.
\<close>

theorem setup_idempotent:
  assumes "create_directories posix_exists self w = Inr wa"
    and "no_entry (files wa) (cwd wa) (neurolora_link self)"
    and "setup posix_exists e self w = Inr w1"
  shows "no_template_made e self w w1 \<longleftrightarrow>
     (\<exists>w2. setup posix_exists e self w1 = Inr w2 \<and> files w2 = files w1)"
proof -
  let ?docs = "project_docs_dir self" and ?link = "neurolora_link self"
  let ?marker = "joinpath (project_docs_dir self) ''.initialized''"
  let ?o1 = "joinpath (project_root self) ''.neuroloraignore''"
  let ?o2 = "joinpath (project_docs_dir self) ''TODO.md''"
  let ?o3 = "joinpath (project_docs_dir self) ''DONE.md''"
  let ?t1 = "template_path e ''ignore.template''"
  let ?t2 = "template_path e ''todo.template.md''"
  let ?t3 = "template_path e ''done.template.md''"
  let ?wd = "cwd w"
  note a = assms(1)
  from assms(3) a obtain wb wc wd1 wd where
    b: "create_symlinks posix_exists self wa = Inr wb"
    and c: "create_template_file posix_exists e self ''ignore.template'' ''.neuroloraignore''
        (Some (project_root self)) wb = Inr wc"
    and d1: "create_template_file posix_exists e self ''todo.template.md'' ''TODO.md'' None wc
        = Inr wd1"
    and d: "create_template_file posix_exists e self ''done.template.md'' ''DONE.md'' None wd1
        = Inr wd"
    and w1: "files w1 = files wd" "cwd w1 = cwd wd"
    by (auto simp: setup_def and_then_Inr create_ignore_file_def create_task_files_def logmsg_def)
  txt \<open>The directory and the marker.\<close>
  from create_directories_Inr [OF a] obtain f1 where
    m1: "mkdir_p (files w) ?wd ?docs = Inr f1"
    and wr: "write_text ?marker ''initialized'' f1 ?wd = Inr (files wa)"
    and ca: "cwd wa = ?wd"
    by blast
  from mkdir_p_Inr [OF m1] have ad1: "adds_dirs (files w) f1" and dir1: "is_dir f1 ?wd ?docs"
    by simp_all
  from write_text_Inr [OF wr] obtain lm where
    mk: "stat (files wa) ?wd ?marker = Found lm (File ''initialized'')"
    and e1: "extends f1 (files wa)"
    by blast
  have e0a: "extends (files w) (files wa)"
    using adds_dirs_extends [OF ad1] e1 by (rule extends_trans)
  have dira: "is_dir (files wa) ?wd ?docs"
    using e1 dir1 by (rule extends_is_dir)
  txt \<open>The link: nothing is in its place, so it is created and nothing is removed.\<close>
  from assms(2) ca obtain ll where fresh: "lstat (files wa) ?wd ?link = Missing ll"
    by (auto simp: no_entry_def split: lookup.splits)
  from create_symlinks_Inr [OF b] obtain wb' where
    cous: "create_or_update_symlink posix_exists ?link ?docs ''.neurolora'' wa = Inr wb'"
    and wb: "files wb = files wb'" "cwd wb = cwd wb'"
    by blast
  have m2: "mkdir_p (files wa) ?wd ?docs = Inr (files wa)"
    using dira by (rule mkdir_p_is_dir)
  from create_or_update_symlink_Inr [OF cous] ca wb m2 have
    cb: "cwd wb = ?wd"
    and ok: "link_ok (files wb) ?wd ?link ?docs"
    and up: "files wb = files wa \<or>
       (\<not> fs_exists (files wa) ?wd ?link \<and>
          symlink_to ?link (relpath ?wd ?docs (parent ?link)) (files wa) ?wd = Inr (files wb)) \<or>
       (fs_exists (files wa) ?wd ?link \<and>
          (\<exists>f2. unlink ?link (files wa) ?wd = Inr f2 \<and>
             symlink_to ?link (relpath ?wd ?docs (parent ?link)) f2 ?wd = Inr (files wb)))"
    by auto
  have ab: "files wa \<subseteq>\<^sub>m files wb"
    using up
  proof (elim disjE conjE exE)
    assume "files wb = files wa"
    then show ?thesis by simp
  next
    assume "symlink_to ?link (relpath ?wd ?docs (parent ?link)) (files wa) ?wd = Inr (files wb)"
    from symlink_to_Inr [OF this] obtain l' where
      "files wb = (files wa)(l' \<mapsto> Symlink (relpath ?wd ?docs (parent ?link)))"
      and "files wa l' = None"
      by blast
    then show ?thesis
      using map_le_upd [of "files wa" l' "Symlink (relpath ?wd ?docs (parent ?link))"] by simp
  next
    fix f2
    assume "unlink ?link (files wa) ?wd = Inr f2"
    then have False
      using fresh by (simp add: unlink_def)
    then show ?thesis ..
  qed
  txt \<open>The three seeding steps.\<close>
  from seed_step [OF c] cb have cc: "cwd wc = ?wd" and bc: "files wb \<subseteq>\<^sub>m files wc"
    and q1c: "fs_exists (files wc) ?wd ?o1 \<or> \<not> fs_exists (files wb) ?wd ?t1"
    by simp_all
  from seed_step [OF d1] cc have cd1: "cwd wd1 = ?wd" and cd: "files wc \<subseteq>\<^sub>m files wd1"
    and q2c: "fs_exists (files wd1) ?wd ?o2 \<or> \<not> fs_exists (files wc) ?wd ?t2"
    by simp_all
  from seed_step [OF d] cd1 have cd2: "cwd wd = ?wd" and dd: "files wd1 \<subseteq>\<^sub>m files wd"
    and q3c: "fs_exists (files wd) ?wd ?o3 \<or> \<not> fs_exists (files wd1) ?wd ?t3"
    by simp_all
  have c1: "cwd w1 = ?wd"
    using w1 cd2 by simp
  txt \<open>What the first call has established still holds of the files \<open>files wd\<close> it leaves.\<close>
  have cD: "files wc \<subseteq>\<^sub>m files wd"
    using cd dd by (rule map_le_trans)
  have bD: "files wb \<subseteq>\<^sub>m files wd"
    using bc cD by (rule map_le_trans)
  have aD: "files wa \<subseteq>\<^sub>m files wd"
    using ab bD by (rule map_le_trans)
  have e0b: "extends (files w) (files wb)"
    using e0a map_le_extends [OF ab] by (rule extends_trans)
  have e0c: "extends (files w) (files wc)"
    using e0b map_le_extends [OF bc] by (rule extends_trans)
  have e0d1: "extends (files w) (files wd1)"
    using e0c map_le_extends [OF cd] by (rule extends_trans)
  have dirF: "is_dir (files wd) ?wd ?docs"
    using map_le_extends [OF aD] dira by (rule extends_is_dir)
  have mkF: "stat (files wd) ?wd ?marker = Found lm (File ''initialized'')"
    using aD mk by (rule map_le_stat_File)
  have okF: "link_ok (files wd) ?wd ?link ?docs"
    using map_le_extends [OF bD] ok by (rule extends_link_ok)
  txt \<open>The second call, as far as the link.\<close>
  from create_directories_ok [of w1 self lm] dirF mkF w1 c1 obtain xa where
    xa: "create_directories posix_exists self w1 = Inr xa" "files xa = files wd" "cwd xa = ?wd"
    by auto
  from create_symlinks_ok [of xa self] dirF okF xa obtain xb where
    xb: "create_symlinks posix_exists self xa = Inr xb" "files xb = files wd" "cwd xb = ?wd"
    by auto
  show ?thesis
  proof
    assume "no_template_made e self w w1"
    then have nt: "fs_exists (files wd) ?wd ?t1 \<longrightarrow>
          fs_exists (files w) ?wd ?t1 \<or> fs_exists (files wd) ?wd ?o1"
        "fs_exists (files wd) ?wd ?t2 \<longrightarrow>
          fs_exists (files w) ?wd ?t2 \<or> fs_exists (files wd) ?wd ?o2"
        "fs_exists (files wd) ?wd ?t3 \<longrightarrow>
          fs_exists (files w) ?wd ?t3 \<or> fs_exists (files wd) ?wd ?o3"
      using w1 c1 by (simp_all add: no_template_made_def seed_pairs_def)
    have q1: "fs_exists (files wd) ?wd ?o1 \<or> \<not> fs_exists (files wd) ?wd ?t1"
      using q1c e0b map_le_extends [OF cD] nt(1) by (rule seed_settled)
    have q2: "fs_exists (files wd) ?wd ?o2 \<or> \<not> fs_exists (files wd) ?wd ?t2"
      using q2c e0c map_le_extends [OF dd] nt(2) by (rule seed_settled)
    have q3: "fs_exists (files wd) ?wd ?o3 \<or> \<not> fs_exists (files wd) ?wd ?t3"
      using q3c e0d1 extends_refl nt(3) by (rule seed_settled)
    from create_template_file_ok [where w = xb and od = "Some (project_root self)" and self = self
        and oname = "''.neuroloraignore''" and e = e and tn = "''ignore.template''"] q1 xb
    obtain xc where
      xc: "create_template_file posix_exists e self ''ignore.template'' ''.neuroloraignore''
          (Some (project_root self)) xb = Inr xc" "files xc = files wd" "cwd xc = ?wd"
      by auto
    from create_template_file_ok [where w = xc and od = None and self = self
        and oname = "''TODO.md''" and e = e and tn = "''todo.template.md''"] q2 xc
    obtain xd1 where
      xd1: "create_template_file posix_exists e self ''todo.template.md'' ''TODO.md'' None xc
          = Inr xd1" "files xd1 = files wd" "cwd xd1 = ?wd"
      by auto
    from create_template_file_ok [where w = xd1 and od = None and self = self
        and oname = "''DONE.md''" and e = e and tn = "''done.template.md''"] q3 xd1
    obtain xd where
      xd: "create_template_file posix_exists e self ''done.template.md'' ''DONE.md'' None xd1
          = Inr xd" "files xd = files wd" "cwd xd = ?wd"
      by auto
    show "\<exists>w2. setup posix_exists e self w1 = Inr w2 \<and> files w2 = files w1"
      using xa xb xc xd1 xd w1
      by (simp add: setup_def and_then_def create_ignore_file_def create_task_files_def
          logmsg_def)
  next
    assume "\<exists>w2. setup posix_exists e self w1 = Inr w2 \<and> files w2 = files w1"
    then obtain w2 where s2: "setup posix_exists e self w1 = Inr w2" and same: "files w2 = files wd"
      using w1 by auto
    from s2 xa xb obtain xc xd1 xd where
      xc: "create_template_file posix_exists e self ''ignore.template'' ''.neuroloraignore''
          (Some (project_root self)) xb = Inr xc"
      and xd1: "create_template_file posix_exists e self ''todo.template.md'' ''TODO.md'' None xc
          = Inr xd1"
      and xd: "create_template_file posix_exists e self ''done.template.md'' ''DONE.md'' None xd1
          = Inr xd"
      and w2: "files w2 = files xd"
      by (auto simp: setup_def and_then_Inr create_ignore_file_def create_task_files_def
          logmsg_def)
    from seed_step [OF xc] xb have yc: "cwd xc = ?wd" and l1: "files wd \<subseteq>\<^sub>m files xc"
      by simp_all
    from seed_step [OF xd1] yc have yd1: "cwd xd1 = ?wd" and l2: "files xc \<subseteq>\<^sub>m files xd1"
      by simp_all
    from seed_step [OF xd] have l3: "files xd1 \<subseteq>\<^sub>m files xd"
      by simp
    have fin: "files xd = files wd"
      using same w2 by simp
    have "files xd1 \<subseteq>\<^sub>m files wd"
      using l3 fin by simp
    moreover have "files wd \<subseteq>\<^sub>m files xd1"
      using l1 l2 by (rule map_le_trans)
    ultimately have k2: "files xd1 = files wd"
      by (rule map_le_antisym)
    have "files xc \<subseteq>\<^sub>m files wd"
      using l2 k2 by simp
    then have k1: "files xc = files wd"
      using l1 by (rule map_le_antisym)
    have "fs_exists (files wd) ?wd ?o1 \<or> \<not> fs_exists (files wd) ?wd ?t1"
      using seed_idle [OF xc] xb k1 by simp
    moreover have "fs_exists (files wd) ?wd ?o2 \<or> \<not> fs_exists (files wd) ?wd ?t2"
      using seed_idle [OF xd1] yc k1 k2 by simp
    moreover have "fs_exists (files wd) ?wd ?o3 \<or> \<not> fs_exists (files wd) ?wd ?t3"
      using seed_idle [OF xd] yd1 k2 fin by simp
    ultimately show "no_template_made e self w w1"
      using w1 c1 by (auto simp: no_template_made_def seed_pairs_def)
  qed
qed

theorem setup_idempotent_witness:
  "raised (create_directories posix_exists example_manager ready_world) = None \<and>
   no_entry (files (final_world (create_directories posix_exists example_manager ready_world)))
     (cwd (final_world (create_directories posix_exists example_manager ready_world)))
     (neurolora_link example_manager) \<and>
   raised (setup posix_exists example_env example_manager ready_world) = None \<and>
   no_template_made example_env example_manager ready_world
     (final_world (setup posix_exists example_env example_manager ready_world)) \<and>
   raised (setup posix_exists example_env example_manager
     (final_world (setup posix_exists example_env example_manager ready_world))) = None \<and>
   files (final_world (setup posix_exists example_env example_manager
     (final_world (setup posix_exists example_env example_manager ready_world))))
     = files (final_world (setup posix_exists example_env example_manager ready_world))"
proof -
  let ?a = "create_directories posix_exists example_manager ready_world"
  let ?r = "setup posix_exists example_env example_manager ready_world"
  have "\<not> isl ?a" and "\<not> isl ?r"
    by code_simp+
  then have a: "?a = Inr (projr ?a)" and r: "?r = Inr (projr ?r)"
    by simp_all
  have fa: "final_world ?a = projr ?a" and ra: "raised ?a = None"
    by (subst a, simp add: final_world_def raised_def)+
  have fr: "final_world ?r = projr ?r" and rr: "raised ?r = None"
    by (subst r, simp add: final_world_def raised_def)+
  have fresh: "no_entry (files (projr ?a)) (cwd (projr ?a)) (neurolora_link example_manager)"
    by code_simp
  have nt: "no_template_made example_env example_manager ready_world (projr ?r)"
    by code_simp
  from setup_idempotent [OF a fresh r] nt obtain w2 where
    "setup posix_exists example_env example_manager (projr ?r) = Inr w2"
    "files w2 = files (projr ?r)"
    by blast
  then show ?thesis
    using ra fa fresh rr fr nt by (simp add: final_world_def raised_def)
qed

text \<open>
  C1 as it is written holds of every fresh project root. In \<open>linked_template_world\<close> the
  root is fresh and both calls succeed, but the first call skips \<^verbatim>\<open>TODO.md\<close>, whose
  template is a link that dangles, and seeds \<^verbatim>\<open>DONE.md\<close>, which is where that link leads:
  the second call finds the template and writes \<^verbatim>\<open>TODO.md\<close>. In \<open>linked_marker_world\<close> the
  root is fresh and the first call succeeds, but the marker is written through its link
  to \<^verbatim>\<open>/tmp/app/.neurolora\<close>, which the reconciler then replaces by the link to the
  documents directory: in the second call the marker leads to that directory, and
  writing it raises \<^verbatim>\<open>IsADirectoryError\<close>.
\<close>

theorem setup_idempotent_counterexample:
  "no_entry (files linked_template_world) (cwd linked_template_world)
     (neurolora_link example_manager) \<and>
   raised (setup posix_exists example_env example_manager linked_template_world) = None \<and>
   raised (setup posix_exists example_env example_manager
     (final_world (setup posix_exists example_env example_manager linked_template_world)))
     = None \<and>
   files (final_world (setup posix_exists example_env example_manager linked_template_world))
     [''tmp'', ''home'', ''.mcp-docs'', ''app'', ''TODO.md''] = None \<and>
   files (final_world (setup posix_exists example_env example_manager
     (final_world (setup posix_exists example_env example_manager linked_template_world))))
     [''tmp'', ''home'', ''.mcp-docs'', ''app'', ''TODO.md''] = Some (File ''# DONE'') \<and>
   no_entry (files linked_marker_world) (cwd linked_marker_world)
     (neurolora_link example_manager) \<and>
   raised (setup posix_exists example_env example_manager linked_marker_world) = None \<and>
   raised (setup posix_exists example_env example_manager
     (final_world (setup posix_exists example_env example_manager linked_marker_world)))
     = Some IsADirectoryError"
  by code_simp

end
